theory Spec2Isabelle
  imports Main
begin

section \<open>Text primitives of the interpreter\<close>

text \<open>
  A Python \<open>str\<close> is modelled as a \<open>string\<close>; one \<open>char\<close> stands for one code point
  below 256. The functions below are the built-in string methods that
  \<^verbatim>\<open>inventory.py\<close> calls, restricted to that range.
\<close>

definition nl :: char where
  "nl = CHR 0x0A"

definition comma :: char where
  "comma = CHR '',''"

text \<open>\<^verbatim>\<open>str.isspace\<close> for one code point: TAB..CR, FS..US, SPACE, NEL and NBSP.\<close>

definition is_space :: "char \<Rightarrow> bool" where
  "is_space c = ((of_char c :: nat) \<in> {9, 10, 11, 12, 13, 28, 29, 30, 31, 32, 133, 160})"

text \<open>\<^verbatim>\<open>s.strip()\<close>: whitespace removed from both ends.\<close>

definition strip :: "string \<Rightarrow> string" where
  "strip s = rev (dropWhile is_space (rev (dropWhile is_space s)))"

text \<open>\<^verbatim>\<open>line.rstrip("\n")\<close>: every trailing newline removed.\<close>

definition rstrip_nl :: "string \<Rightarrow> string" where
  "rstrip_nl s = rev (dropWhile (\<lambda>c. c = nl) (rev s))"

text \<open>\<^verbatim>\<open>line.endswith("\n")\<close>.\<close>

definition endswith_nl :: "string \<Rightarrow> bool" where
  "endswith_nl s = (s \<noteq> [] \<and> last s = nl)"

text \<open>\<^verbatim>\<open>s.split(d)\<close> for a one-character separator: never the empty list.\<close>

fun split_on :: "char \<Rightarrow> string \<Rightarrow> string list" where
  "split_on d [] = [[]]"
| "split_on d (c # cs) =
     (if c = d then [] # split_on d cs
      else (case split_on d cs of [] \<Rightarrow> [[c]] | f # fs \<Rightarrow> (c # f) # fs))"

text \<open>\<^verbatim>\<open>s.lower()\<close>: A..Z and the Latin-1 capitals (all of C0..DE but the
  multiplication sign D7) move up by 32.\<close>

definition lower_char :: "char \<Rightarrow> char" where
  "lower_char c =
     (let n = (of_char c :: nat)
      in if (65 \<le> n \<and> n \<le> 90) \<or> (192 \<le> n \<and> n \<le> 222 \<and> n \<noteq> 215)
         then char_of (n + 32) else c)"

definition lower :: "string \<Rightarrow> string" where
  "lower s = map lower_char s"

subsection \<open>Integers as text\<close>

definition is_digit :: "char \<Rightarrow> bool" where
  "is_digit c = (48 \<le> (of_char c :: nat) \<and> (of_char c :: nat) \<le> 57)"

definition digit_val :: "char \<Rightarrow> nat" where
  "digit_val c = (of_char c :: nat) - 48"

text \<open>
  The digits of \<^verbatim>\<open>int(s)\<close> in base 10: one or more decimal digits, single underscores
  allowed between two digits. \<open>int_digit\<close> stands where a digit is required,
  \<open>int_more\<close> after a digit. The interpreter's optional limit on the number of digits of
  a literal is not part of the model.
\<close>

fun int_digit :: "string \<Rightarrow> nat \<Rightarrow> nat option"
  and int_more :: "string \<Rightarrow> nat \<Rightarrow> nat option" where
  "int_digit [] acc = None"
| "int_digit (c # cs) acc =
     (if is_digit c then int_more cs (10 * acc + digit_val c) else None)"
| "int_more [] acc = Some acc"
| "int_more (c # cs) acc =
     (if c = CHR ''_'' then int_digit cs acc
      else if is_digit c then int_more cs (10 * acc + digit_val c)
      else None)"

text \<open>\<^verbatim>\<open>int(s)\<close> on stripped text: an optional sign, then the digits. \<open>None\<close> is
  \<^verbatim>\<open>ValueError\<close>.\<close>

definition py_int :: "string \<Rightarrow> int option" where
  "py_int s =
     (case s of
        [] \<Rightarrow> None
      | c # cs \<Rightarrow>
          if c = CHR ''-'' then map_option (\<lambda>n. - int n) (int_digit cs 0)
          else if c = CHR ''+'' then map_option int (int_digit cs 0)
          else map_option int (int_digit s 0))"

text \<open>\<^verbatim>\<open>str(n)\<close> for an integer, as the f-string formats it.\<close>

definition digit_char :: "nat \<Rightarrow> char" where
  "digit_char n = ''0123456789'' ! n"

fun nat_digits :: "nat \<Rightarrow> string" where
  "nat_digits n =
     (if n < 10 then [digit_char n]
      else nat_digits (n div 10) @ [digit_char (n mod 10)])"

declare nat_digits.simps [simp del]

definition str_int :: "int \<Rightarrow> string" where
  "str_int i = (if i < 0 then CHR ''-'' # nat_digits (nat (- i)) else nat_digits (nat i))"

section \<open>The backing file\<close>

text \<open>
  \<open>inventory.txt\<close> as \<^verbatim>\<open>open(..., "r")\<close> finds it: absent, unreadable for lack of
  permission, failing in any other way (an I/O or decoding error), or holding a text. The
  text is the decoded one, line ends already translated to \<open>nl\<close>. \<open>wperm\<close> is what
  \<^verbatim>\<open>open(..., "w")\<close> meets; a failure there leaves the text as it was.
\<close>

datatype file_state = Missing | Denied | Broken | Text string

datatype write_perm = Writable | WriteDenied | WriteBroken

record fsys =
  fstate :: file_state
  wperm :: write_perm

datatype io_error = FileNotFoundError | PermissionError | OtherException

definition read_file :: "fsys \<Rightarrow> io_error + string" where
  "read_file d =
     (case fstate d of
        Missing \<Rightarrow> Inl FileNotFoundError
      | Denied \<Rightarrow> Inl PermissionError
      | Broken \<Rightarrow> Inl OtherException
      | Text c \<Rightarrow> Inr c)"

text \<open>\<^verbatim>\<open>f.readlines()\<close>: the text cut after every newline, each line keeping its own.\<close>

fun readlines :: "string \<Rightarrow> string list" where
  "readlines [] = []"
| "readlines (c # cs) =
     (if c = nl then [c] # readlines cs
      else (case readlines cs of [] \<Rightarrow> [[c]] | l # ls \<Rightarrow> (c # l) # ls))"

text \<open>\<^verbatim>\<open>open(..., "w")\<close> followed by \<^verbatim>\<open>f.writelines(ls)\<close>: the whole text is replaced.\<close>

definition write_lines :: "fsys \<Rightarrow> string list \<Rightarrow> io_error + fsys" where
  "write_lines d ls =
     (case wperm d of
        Writable \<Rightarrow> Inr (d\<lparr>fstate := Text (concat ls)\<rparr>)
      | WriteDenied \<Rightarrow> Inl PermissionError
      | WriteBroken \<Rightarrow> Inl OtherException)"

subsection \<open>Line ends on disk\<close>

text \<open>
  Both \<^verbatim>\<open>open\<close> calls are in text mode with the default \<^verbatim>\<open>newline=None\<close>. On
  reading, the stored line ends CR LF and CR reach the program as \<open>nl\<close>; that is
  \<open>universal\<close>, and the text of \<open>Text\<close> above is its result. On writing, every \<open>nl\<close> is
  stored as the line separator of the platform (\<^verbatim>\<open>os.linesep\<close>); that is \<open>on_disk\<close>.
\<close>

definition cr :: char where
  "cr = CHR 0x0D"

fun universal :: "string \<Rightarrow> string" where
  "universal [] = []"
| "universal [c] = (if c = cr then [nl] else [c])"
| "universal (c # d # cs) =
     (if c = cr then (if d = nl then nl # universal cs else nl # universal (d # cs))
      else c # universal (d # cs))"

datatype platform = Posix | Windows

definition linesep :: "platform \<Rightarrow> string" where
  "linesep p = (case p of Posix \<Rightarrow> [nl] | Windows \<Rightarrow> [cr, nl])"

definition on_disk :: "platform \<Rightarrow> string \<Rightarrow> string" where
  "on_disk p s = concat (map (\<lambda>c. if c = nl then linesep p else [c]) s)"

section \<open>Records, the store and the console\<close>

text \<open>
  Class \<open>Shoe\<close>. The cost is whatever \<^verbatim>\<open>float\<close> returns: its type is the parameter
  \<open>'c\<close>, and \<^verbatim>\<open>float\<close> itself is the parameter \<open>pf\<close> of the operations that parse
  (\<open>None\<close> for \<^verbatim>\<open>ValueError\<close>).
\<close>

record 'c shoe =
  country :: string
  code :: string
  product :: string
  cost :: 'c
  quantity :: int

text \<open>
  What is printed. Fixed texts are constructors; the formatted ones carry their arguments.
  \<^item> \<open>Prompt p\<close>: the prompt \<open>p\<close> of an \<^verbatim>\<open>input\<close> call.
  \<^item> \<open>FileEmpty\<close>: \<^verbatim>\<open>inventory.txt is empty.\<close>
  \<^item> \<open>SkipInvalidLine n l\<close>: \<^verbatim>\<open>Skipping invalid line {n}: {l}\<close>
  \<^item> \<open>SkipBadNumber n l\<close>: \<^verbatim>\<open>Skipping line {n} (bad number): {l}\<close>
  \<^item> \<open>Loaded n\<close>: \<^verbatim>\<open>Loaded {n} shoes from inventory.txt.\<close>
  \<^item> \<open>ReadNotFound\<close>, \<open>ReadDenied\<close>, \<open>ReadUnexpected\<close>: the three error lines of
    \<open>read_shoes_data\<close> (file not found, permission denied, unexpected error).
  \<^item> \<open>InvalidCost\<close>, \<open>InvalidQuantity\<close>: the two notices of \<open>capture_shoes\<close> for a
    text that does not parse; \<open>Captured\<close>: \<^verbatim>\<open>Shoe captured and added to the list.\<close>
  \<^item> \<open>NothingLoaded\<close>: \<^verbatim>\<open>No shoes loaded. Choose option 1 first (read_shoes_data).\<close>
  \<^item> \<open>UpdateNotFound\<close>, \<open>UpdateDenied\<close>, \<open>UpdateError\<close>: the three error lines of
    \<open>_update_quantity_in_file\<close>.
  \<^item> \<open>LowestHeader\<close>: \<^verbatim>\<open>Lowest stock item:\<close>; \<open>ShowShoe s\<close>: \<^verbatim>\<open>print(shoe)\<close>;
    \<open>RestockCancelled\<close>: \<^verbatim>\<open>Restock cancelled.\<close>
  \<^item> \<open>NeedPositive\<close>: \<^verbatim>\<open>Please enter a number greater than 0.\<close>;
    \<open>NeedWholeNumber\<close>: \<^verbatim>\<open>Please enter a valid whole number.\<close>
  \<^item> \<open>FileLineWarning\<close>:
    \<^verbatim>\<open>Warning: Could not update the file line for this shoe (code not found).\<close>
  \<^item> \<open>StockUpdated\<close>: \<^verbatim>\<open>Stock updated:\<close>
\<close>

datatype 'c msg =
    Prompt string
  | FileEmpty
  | SkipInvalidLine nat string
  | SkipBadNumber nat string
  | Loaded nat
  | ReadNotFound
  | ReadDenied
  | ReadUnexpected
  | InvalidCost
  | InvalidQuantity
  | Captured
  | NothingLoaded
  | UpdateNotFound
  | UpdateDenied
  | UpdateError
  | LowestHeader
  | ShowShoe "'c shoe"
  | RestockCancelled
  | NeedPositive
  | NeedWholeNumber
  | FileLineWarning
  | StockUpdated

text \<open>
  The process state an operation sees: the global \<open>shoes_list\<close>, the disk, the lines
  still to come on standard input and what has been printed so far.
\<close>

record 'c world =
  shoes_list :: "'c shoe list"
  disk :: fsys
  stdin :: "string list"
  stdout :: "'c msg list"

text \<open>An operation returns, or an exception leaves it; both with the state reached.\<close>

datatype exn = EOFError | ValueError

datatype ('r, 'w) outcome = Returned 'r 'w | Raised exn 'w

fun final :: "('r, 'w) outcome \<Rightarrow> 'w" where
  "final (Returned r w) = w"
| "final (Raised e w) = w"

definition print :: "'c msg \<Rightarrow> 'c world \<Rightarrow> 'c world" where
  "print m w = w\<lparr>stdout := stdout w @ [m]\<rparr>"

section \<open>Rewriting one quantity in the file\<close>

text \<open>\<^verbatim>\<open>line if line.endswith("\n") else line + "\n"\<close>.\<close>

definition with_newline :: "string \<Rightarrow> string" where
  "with_newline line = (if endswith_nl line then line else line @ [nl])"

text \<open>The f-string written for a matching line.\<close>

definition format_line :: "string \<Rightarrow> string \<Rightarrow> string \<Rightarrow> string \<Rightarrow> int \<Rightarrow> string" where
  "format_line co cd pr cs q =
     co @ [comma] @ cd @ [comma] @ pr @ [comma] @ cs @ [comma] @ str_int q @ [nl]"

text \<open>One pass of the loop body of \<open>_update_quantity_in_file\<close>: the line appended to
  \<open>updated_lines\<close>, and whether this line set \<open>updated\<close>.\<close>

definition rewrite_line :: "string \<Rightarrow> int \<Rightarrow> string \<Rightarrow> string \<times> bool" where
  "rewrite_line target_code new_quantity line =
     (let raw = rstrip_nl line
      in if strip raw = [] then (line, False)
         else
           (let parts = map strip (split_on comma raw)
            in if length parts \<noteq> 5 then (with_newline line, False)
               else if parts ! 1 = target_code
                 then (format_line (parts ! 0) (parts ! 1) (parts ! 2) (parts ! 3) new_quantity,
                       True)
                 else (with_newline line, False)))"

fun rewrite_loop ::
  "string \<Rightarrow> int \<Rightarrow> string list \<Rightarrow> string list \<Rightarrow> bool \<Rightarrow> string list \<times> bool" where
  "rewrite_loop target_code new_quantity [] updated_lines updated = (updated_lines, updated)"
| "rewrite_loop target_code new_quantity (line # rest) updated_lines updated =
     (case rewrite_line target_code new_quantity line of
        (l, hit) \<Rightarrow>
          rewrite_loop target_code new_quantity rest (updated_lines @ [l])
            (if hit then True else updated))"

text \<open>The body of the \<^verbatim>\<open>try\<close>: \<open>Inl\<close> is the exception raised in it.\<close>

definition update_try :: "string \<Rightarrow> int \<Rightarrow> fsys \<Rightarrow> io_error + bool \<times> fsys" where
  "update_try target_code new_quantity d =
     (case read_file d of
        Inl e \<Rightarrow> Inl e
      | Inr c \<Rightarrow>
          (case readlines c of
             [] \<Rightarrow> Inr (False, d)
           | header # rest \<Rightarrow>
               (case rewrite_loop target_code new_quantity rest [header] False of
                  (updated_lines, updated) \<Rightarrow>
                    if \<not> updated then Inr (False, d)
                    else (case write_lines d updated_lines of
                            Inl e \<Rightarrow> Inl e
                          | Inr d' \<Rightarrow> Inr (True, d')))))"

text \<open>
  The same step on the characters stored in a file that exists and can be read: the
  program is handed \<open>universal raw\<close>; when it reaches \<^verbatim>\<open>writelines\<close> the file holds what
  \<open>on_disk\<close> makes of the written text, and when it does not the file is not touched. The
  result is whether it wrote, and the stored characters afterwards.
\<close>

definition update_stored ::
  "platform \<Rightarrow> write_perm \<Rightarrow> string \<Rightarrow> int \<Rightarrow> string \<Rightarrow> bool \<times> string" where
  "update_stored p perm target_code new_quantity raw =
     (case update_try target_code new_quantity \<lparr>fstate = Text (universal raw), wperm = perm\<rparr> of
        Inr (True, d') \<Rightarrow> (True, (case fstate d' of Text c' \<Rightarrow> on_disk p c' | _ \<Rightarrow> raw))
      | _ \<Rightarrow> (False, raw))"

text \<open>\<open>_update_quantity_in_file\<close>, with its three handlers.\<close>

definition update_quantity_in_file ::
  "string \<Rightarrow> int \<Rightarrow> 'c world \<Rightarrow> bool \<times> 'c world" where
  "update_quantity_in_file target_code new_quantity w =
     (case update_try target_code new_quantity (disk w) of
        Inr (b, d') \<Rightarrow> (b, w\<lparr>disk := d'\<rparr>)
      | Inl FileNotFoundError \<Rightarrow> (False, print UpdateNotFound w)
      | Inl PermissionError \<Rightarrow> (False, print UpdateDenied w)
      | Inl OtherException \<Rightarrow> (False, print UpdateError w))"

section \<open>Console input\<close>

text \<open>\<^verbatim>\<open>input(prompt)\<close>: the prompt is printed, then one line is taken from standard
  input; \<open>Inl\<close> is \<^verbatim>\<open>EOFError\<close>, raised when no line is left.\<close>

definition input :: "string \<Rightarrow> 'c world \<Rightarrow> 'c world + string \<times> 'c world" where
  "input p w =
     (case stdin w of
        [] \<Rightarrow> Inl (print (Prompt p) w)
      | l # ls \<Rightarrow> Inr (l, (print (Prompt p) w)\<lparr>stdin := ls\<rparr>))"

definition ask_country :: string where "ask_country = ''Country: ''"
definition ask_code :: string where "ask_code = ''Code: ''"
definition ask_product :: string where "ask_product = ''Product: ''"
definition ask_cost :: string where "ask_cost = ''Cost: ''"
definition ask_quantity :: string where "ask_quantity = ''Quantity: ''"
definition ask_confirm :: string where
  "ask_confirm = ''Do you want to add stock to this item? (y/n): ''"
definition ask_units :: string where
  "ask_units = ''How many units do you want to add? ''"
definition ask_search :: string where
  "ask_search = ''Enter shoe code to search: ''"

section \<open>Load\<close>

text \<open>The \<^verbatim>\<open>for\<close> loop of \<open>read_shoes_data\<close> over \<^verbatim>\<open>enumerate(lines[1:], start=2)\<close>.\<close>

fun load_loop :: "(string \<Rightarrow> 'c option) \<Rightarrow> nat \<Rightarrow> string list \<Rightarrow> 'c world \<Rightarrow> 'c world" where
  "load_loop pf line_no [] w = w"
| "load_loop pf line_no (l # rest) w =
     (let line = strip l
      in if line = [] then load_loop pf (Suc line_no) rest w
         else
           (let parts = map strip (split_on comma line)
            in if length parts \<noteq> 5
               then load_loop pf (Suc line_no) rest (print (SkipInvalidLine line_no line) w)
               else
                 (case pf (parts ! 3) of
                    None \<Rightarrow> load_loop pf (Suc line_no) rest (print (SkipBadNumber line_no line) w)
                  | Some c \<Rightarrow>
                      (case py_int (parts ! 4) of
                         None \<Rightarrow>
                           load_loop pf (Suc line_no) rest (print (SkipBadNumber line_no line) w)
                       | Some q \<Rightarrow>
                           load_loop pf (Suc line_no) rest
                             (w\<lparr>shoes_list := shoes_list w @
                                  [\<lparr>country = parts ! 0, code = parts ! 1, product = parts ! 2,
                                    cost = c, quantity = q\<rparr>]\<rparr>)))))"

text \<open>The body of the outer \<^verbatim>\<open>try\<close>, entered with the list already cleared.\<close>

definition load_try :: "(string \<Rightarrow> 'c option) \<Rightarrow> 'c world \<Rightarrow> io_error + 'c world" where
  "load_try pf w =
     (case read_file (disk w) of
        Inl e \<Rightarrow> Inl e
      | Inr c \<Rightarrow>
          (case readlines c of
             [] \<Rightarrow> Inr (print FileEmpty w)
           | header # rest \<Rightarrow>
               (let w' = load_loop pf 2 rest w
                in Inr (print (Loaded (length (shoes_list w'))) w'))))"

definition read_shoes_data :: "(string \<Rightarrow> 'c option) \<Rightarrow> 'c world \<Rightarrow> (unit, 'c world) outcome" where
  "read_shoes_data pf w =
     (let w0 = w\<lparr>shoes_list := []\<rparr>
      in case load_try pf w0 of
           Inr w' \<Rightarrow> Returned () w'
         | Inl FileNotFoundError \<Rightarrow> Returned () (print ReadNotFound w0)
         | Inl PermissionError \<Rightarrow> Returned () (print ReadDenied w0)
         | Inl OtherException \<Rightarrow> Returned () (print ReadUnexpected w0))"

section \<open>Capture\<close>

function cost_loop :: "(string \<Rightarrow> 'c option) \<Rightarrow> 'c world \<Rightarrow> ('c, 'c world) outcome" where
  "cost_loop pf w =
     (case input ask_cost w of
        Inl w' \<Rightarrow> Raised EOFError w'
      | Inr (l, w') \<Rightarrow>
          (case pf (strip l) of
             Some c \<Rightarrow> Returned c w'
           | None \<Rightarrow> cost_loop pf (print InvalidCost w')))"
  by pat_completeness auto
termination
  by (relation "measure (\<lambda>(pf, w). length (stdin w))")
     (auto simp: input_def print_def split: list.splits)

function quantity_loop :: "'c world \<Rightarrow> (int, 'c world) outcome" where
  "quantity_loop w =
     (case input ask_quantity w of
        Inl w' \<Rightarrow> Raised EOFError w'
      | Inr (l, w') \<Rightarrow>
          (case py_int (strip l) of
             Some q \<Rightarrow> Returned q w'
           | None \<Rightarrow> quantity_loop (print InvalidQuantity w')))"
  by pat_completeness auto
termination
  by (relation "measure (\<lambda>w. length (stdin w))")
     (auto simp: input_def print_def split: list.splits)

definition capture_shoes :: "(string \<Rightarrow> 'c option) \<Rightarrow> 'c world \<Rightarrow> (unit, 'c world) outcome" where
  "capture_shoes pf w =
     (case input ask_country w of
        Inl w1 \<Rightarrow> Raised EOFError w1
      | Inr (l1, w1) \<Rightarrow>
     (case input ask_code w1 of
        Inl w2 \<Rightarrow> Raised EOFError w2
      | Inr (l2, w2) \<Rightarrow>
     (case input ask_product w2 of
        Inl w3 \<Rightarrow> Raised EOFError w3
      | Inr (l3, w3) \<Rightarrow>
     (case cost_loop pf w3 of
        Raised e w4 \<Rightarrow> Raised e w4
      | Returned c w4 \<Rightarrow>
     (case quantity_loop w4 of
        Raised e w5 \<Rightarrow> Raised e w5
      | Returned q w5 \<Rightarrow>
          Returned ()
            (print Captured
               (w5\<lparr>shoes_list := shoes_list w5 @
                     [\<lparr>country = strip l1, code = strip l2, product = strip l3,
                       cost = c, quantity = q\<rparr>]\<rparr>)))))))"

section \<open>Restock\<close>

text \<open>
  \<^verbatim>\<open>min(shoes_list, key=lambda s: s.quantity)\<close>, as the position of the object it
  returns: the scan keeps the first item and replaces it only by a strictly smaller one.
  \<open>None\<close> is the \<^verbatim>\<open>ValueError\<close> of an empty argument.
\<close>

fun min_scan :: "int list \<Rightarrow> nat \<Rightarrow> nat \<Rightarrow> int \<Rightarrow> nat" where
  "min_scan [] i best bestval = best"
| "min_scan (q # qs) i best bestval =
     (if q < bestval then min_scan qs (Suc i) i q else min_scan qs (Suc i) best bestval)"

definition min_index :: "int list \<Rightarrow> nat option" where
  "min_index qs = (case qs of [] \<Rightarrow> None | q # rest \<Rightarrow> Some (min_scan rest 1 0 q))"

function add_qty_loop :: "'c world \<Rightarrow> (int, 'c world) outcome" where
  "add_qty_loop w =
     (case input ask_units w of
        Inl w' \<Rightarrow> Raised EOFError w'
      | Inr (l, w') \<Rightarrow>
          (case py_int (strip l) of
             Some add_qty \<Rightarrow>
               if add_qty \<le> 0 then add_qty_loop (print NeedPositive w')
               else Returned add_qty w'
           | None \<Rightarrow> add_qty_loop (print NeedWholeNumber w')))"
  by pat_completeness auto
termination
  by (relation "measure (\<lambda>w. length (stdin w))")
     (auto simp: input_def print_def split: list.splits)

text \<open>
  \<open>lowest_shoe\<close> is the object at position \<open>i\<close> of the list; every object of the list
  was made by its own call of the constructor, so writing its quantity changes that position
  and no other.
\<close>

definition re_stock :: "'c world \<Rightarrow> (unit, 'c world) outcome" where
  "re_stock w =
     (if shoes_list w = [] then Returned () (print NothingLoaded w)
      else
        (case min_index (map quantity (shoes_list w)) of
           None \<Rightarrow> Raised ValueError w
         | Some i \<Rightarrow>
             (case input ask_confirm (print (ShowShoe (shoes_list w ! i)) (print LowestHeader w)) of
                Inl w2 \<Rightarrow> Raised EOFError w2
              | Inr (l, w2) \<Rightarrow>
                  if lower (strip l) \<noteq> ''y'' then Returned () (print RestockCancelled w2)
                  else
                    (case add_qty_loop w2 of
                       Raised e w3 \<Rightarrow> Raised e w3
                     | Returned add_qty w3 \<Rightarrow>
                         (let s = shoes_list w3 ! i;
                              s' = s\<lparr>quantity := quantity s + add_qty\<rparr>;
                              w4 = w3\<lparr>shoes_list := (shoes_list w3)[i := s']\<rparr>
                          in case update_quantity_in_file (code s') (quantity s') w4 of
                               (updated, w5) \<Rightarrow>
                                 (let w6 = (if \<not> updated then print FileLineWarning w5 else w5)
                                  in Returned ()
                                       (print (ShowShoe (shoes_list w6 ! i))
                                          (print StockUpdated w6))))))))"

section \<open>Search\<close>

fun find_code :: "string \<Rightarrow> 'c shoe list \<Rightarrow> 'c shoe option" where
  "find_code k [] = None"
| "find_code k (shoe # rest) = (if code shoe = k then Some shoe else find_code k rest)"

definition search_shoe :: "'c world \<Rightarrow> ('c shoe option, 'c world) outcome" where
  "search_shoe w =
     (if shoes_list w = [] then Returned None (print NothingLoaded w)
      else
        (case input ask_search w of
           Inl w' \<Rightarrow> Raised EOFError w'
         | Inr (l, w') \<Rightarrow> Returned (find_code (strip l) (shoes_list w')) w'))"

section \<open>Notions of the specification\<close>

text \<open>
  An increment text that Restock turns down: one that is no whole number, or a whole number
  that is zero or negative; and the notice printed for it.
\<close>

definition rejected :: "string \<Rightarrow> bool" where
  "rejected l = (case py_int (strip l) of None \<Rightarrow> True | Some n \<Rightarrow> n \<le> 0)"

definition refusal :: "string \<Rightarrow> 'c msg" where
  "refusal l = (case py_int (strip l) of None \<Rightarrow> NeedWholeNumber | Some n \<Rightarrow> NeedPositive)"

text \<open>The store after \<^verbatim>\<open>record.quantity += k\<close> at position \<open>i\<close>.\<close>

definition restocked :: "'c shoe list \<Rightarrow> nat \<Rightarrow> int \<Rightarrow> 'c shoe list" where
  "restocked xs i k = xs[i := (xs ! i)\<lparr>quantity := quantity (xs ! i) + k\<rparr>]"

text \<open>
  Decode of the file codec: the line is stripped and split at its commas, every field is
  stripped; a line of exactly five fields whose fourth parses as a float and whose fifth
  parses as an integer is a record, any other line is skipped.
\<close>

definition fields :: "string \<Rightarrow> string list" where
  "fields line = map strip (split_on comma (strip line))"

definition decode_line :: "(string \<Rightarrow> 'c option) \<Rightarrow> string \<Rightarrow> 'c shoe option" where
  "decode_line pf line =
     (case fields line of
        [co, cd, pr, cs, qs] \<Rightarrow>
          (case (pf cs, py_int qs) of
             (Some c, Some q) \<Rightarrow>
               Some \<lparr>country = co, code = cd, product = pr, cost = c, quantity = q\<rparr>
           | _ \<Rightarrow> None)
      | _ \<Rightarrow> None)"

text \<open>The diagnostic Load owes to line number \<open>n\<close>: none for a blank line or a record.\<close>

definition line_diag :: "(string \<Rightarrow> 'c option) \<Rightarrow> nat \<Rightarrow> string \<Rightarrow> 'c msg list" where
  "line_diag pf n line =
     (if strip line = [] then []
      else if length (fields line) \<noteq> 5 then [SkipInvalidLine n (strip line)]
      else if decode_line pf line = None then [SkipBadNumber n (strip line)]
      else [])"

text \<open>The state after a capture of record \<open>r\<close> that turned down the texts \<open>badc\<close> and \<open>badq\<close>.\<close>

definition captured ::
  "'c world \<Rightarrow> 'c shoe \<Rightarrow> string list \<Rightarrow> string list \<Rightarrow> string list \<Rightarrow> 'c world" where
  "captured w r badc badq rest =
     w\<lparr>shoes_list := shoes_list w @ [r], stdin := rest,
       stdout := stdout w @ [Prompt ask_country, Prompt ask_code, Prompt ask_product]
         @ concat (map (\<lambda>b. [Prompt ask_cost, InvalidCost]) badc) @ [Prompt ask_cost]
         @ concat (map (\<lambda>b. [Prompt ask_quantity, InvalidQuantity]) badq)
         @ [Prompt ask_quantity, Captured]\<rparr>"

text \<open>The records of a list of lines, in the order of the lines, and the diagnostics
  of the lines numbered from \<open>n\<close> on.\<close>

definition records_of :: "(string \<Rightarrow> 'c option) \<Rightarrow> string list \<Rightarrow> 'c shoe list" where
  "records_of pf ls = map (the \<circ> decode_line pf) (filter (\<lambda>l. decode_line pf l \<noteq> None) ls)"

fun diags_of :: "(string \<Rightarrow> 'c option) \<Rightarrow> nat \<Rightarrow> string list \<Rightarrow> 'c msg list" where
  "diags_of pf n [] = []"
| "diags_of pf n (l # ls) = line_diag pf n l @ diags_of pf (Suc n) ls"

text \<open>
  A line of the file as the rewrite reads it: its fields are the comma-separated pieces of
  the line without its newline, each stripped. A data line whose code field equals \<open>t\<close> is
  a line of five fields whose second is \<open>t\<close>. A blank line holds whitespace only.
\<close>

definition line_fields :: "string \<Rightarrow> string list" where
  "line_fields line = map strip (split_on comma (rstrip_nl line))"

definition has_code :: "string \<Rightarrow> string \<Rightarrow> bool" where
  "has_code t line = (length (line_fields line) = 5 \<and> line_fields line ! 1 = t)"

definition blank :: "string \<Rightarrow> bool" where
  "blank line = (\<forall>c\<in>set line. is_space c)"

text \<open>What the rewrite for code \<open>t\<close> and quantity \<open>q\<close> makes of one line after the header.\<close>

definition rewritten :: "string \<Rightarrow> int \<Rightarrow> string \<Rightarrow> string" where
  "rewritten t q line =
     (if has_code t line
      then format_line (line_fields line ! 0) t (line_fields line ! 2) (line_fields line ! 3) q
      else if blank line then line
      else with_newline line)"

text \<open>Lines as \<open>readlines\<close> yields them: none empty, a newline only at the end of a
  line, and at the end of every line but possibly the last.\<close>

primrec lines_ok :: "string list \<Rightarrow> bool" where
  "lines_ok [] = True"
| "lines_ok (l # ls) =
     (l \<noteq> [] \<and> nl \<notin> set (butlast l) \<and> (ls = [] \<or> last l = nl) \<and> lines_ok ls)"

text \<open>The text of a formatted line before its newline.\<close>

definition line_body :: "string \<Rightarrow> string \<Rightarrow> string \<Rightarrow> string \<Rightarrow> int \<Rightarrow> string" where
  "line_body f0 f1 f2 f3 q = f0 @ comma # f1 @ comma # f2 @ comma # f3 @ comma # str_int q"

text \<open>The record invariant of the data model: cost and quantity are not negative.\<close>

definition nonneg :: "('c :: {zero, ord}) shoe \<Rightarrow> bool" where
  "nonneg s = (0 \<le> cost s \<and> 0 \<le> quantity s)"

section \<open>Concrete inputs\<close>

text \<open>
  An instance of the parameter \<open>pf\<close> for the closed examples: \<^verbatim>\<open>float\<close> on the texts
  that \<^verbatim>\<open>int\<close> accepts too, where its value is that whole number.
\<close>

definition whole_float :: "string \<Rightarrow> int option" where
  "whole_float s = py_int s"

definition three_shoes :: "int shoe list" where
  "three_shoes =
     [\<lparr>country = ''USA'', code = ''SH001'', product = ''AirMax'', cost = 120, quantity = 3\<rparr>,
      \<lparr>country = ''USA'', code = ''SH002'', product = ''Runner'', cost = 80, quantity = 50\<rparr>,
      \<lparr>country = ''UK'', code = ''SH002'', product = ''Trail'', cost = 95, quantity = 3\<rparr>]"

definition search_world :: "int world" where
  "search_world =
     \<lparr>shoes_list = three_shoes, disk = \<lparr>fstate = Missing, wperm = Writable\<rparr>,
      stdin = ['' SH002 ''], stdout = []\<rparr>"

definition padded_world :: "int world" where
  "padded_world =
     \<lparr>shoes_list = three_shoes, disk = \<lparr>fstate = Missing, wperm = Writable\<rparr>,
      stdin = [''SH001 ''], stdout = []\<rparr>"

definition restock_world :: "int world" where
  "restock_world =
     \<lparr>shoes_list = three_shoes, disk = \<lparr>fstate = Missing, wperm = Writable\<rparr>,
      stdin = ['' Y '', ''0'', ''-4'', ''ten'', ''+10'', ''7''], stdout = []\<rparr>"

definition decline_world :: "int world" where
  "decline_world =
     \<lparr>shoes_list = three_shoes, disk = \<lparr>fstate = Missing, wperm = Writable\<rparr>,
      stdin = [''yes'', ''10''], stdout = []\<rparr>"

definition capture_world :: "int world" where
  "capture_world =
     \<lparr>shoes_list = three_shoes, disk = \<lparr>fstate = Missing, wperm = Writable\<rparr>,
      stdin = ['' ZA '', '''', ''Boot'', ''cheap'', ''1.5.0'', '' 250 '', ''a few'', ''12'', ''next''],
      stdout = []\<rparr>"

definition load_text :: string where
  "load_text = ''USA,SH000,Old,1,1\<newline>USA , SH001,AirMax,120, 3\<newline>\<newline> , \<newline>bad line\<newline>USA,SH002,Runner,80,x\<newline>UK,SH002,Trail,95,-3''"

definition load_world :: "int world" where
  "load_world =
     \<lparr>shoes_list = three_shoes, disk = \<lparr>fstate = Text load_text, wperm = Writable\<rparr>,
      stdin = [], stdout = []\<rparr>"

definition no_file_world :: "int world" where
  "no_file_world =
     \<lparr>shoes_list = three_shoes, disk = \<lparr>fstate = Missing, wperm = Writable\<rparr>,
      stdin = [], stdout = []\<rparr>"

definition gone_text :: string where
  "gone_text = ''country,code,product,cost,quantity\<newline>USA,SH002,Runner,80,50\<newline>SH001\<newline>''"

definition gone_world :: "int world" where
  "gone_world =
     \<lparr>shoes_list = three_shoes, disk = \<lparr>fstate = Text gone_text, wperm = Writable\<rparr>,
      stdin = [''y'', ''x'', ''10''], stdout = []\<rparr>"

definition twin_text :: string where
  "twin_text = ''country,code,product,cost,quantity\<newline>USA,SH002,Runner,80,50\<newline>UK,SH002,Trail,95,3\<newline>''"

definition twin_world :: "int world" where
  "twin_world =
     \<lparr>shoes_list = three_shoes, disk = \<lparr>fstate = Text twin_text, wperm = Writable\<rparr>,
      stdin = [], stdout = []\<rparr>"

definition tail_text :: string where
  "tail_text = ''country,code,product,cost,quantity\<newline>USA,SH001,AirMax,120,3\<newline>USA,SH002,Runner,80,50''"

definition tail_world :: "int world" where
  "tail_world =
     \<lparr>shoes_list = three_shoes, disk = \<lparr>fstate = Text tail_text, wperm = Writable\<rparr>,
      stdin = [''y'', ''10''], stdout = []\<rparr>"

definition negative_world :: "int world" where
  "negative_world =
     \<lparr>shoes_list = [], disk = \<lparr>fstate = Missing, wperm = Writable\<rparr>,
      stdin = [''ZA'', ''SH009'', ''Boot'', ''10'', ''-5''], stdout = []\<rparr>"

definition plus_world :: "int world" where
  "plus_world =
     \<lparr>shoes_list = three_shoes, disk = \<lparr>fstate = Missing, wperm = Writable\<rparr>,
      stdin = [''ZA'', ''SH009'', ''Boot'', ''10'', ''5''], stdout = []\<rparr>"

section \<open>Search returns the first match\<close>

lemma find_code_None: "(find_code k xs = None) = (\<forall>s\<in>set xs. code s \<noteq> k)"
  by (induction xs) auto

lemma find_code_Some:
  "find_code k xs = Some s \<Longrightarrow>
     \<exists>i<length xs. s = xs ! i \<and> code s = k \<and> (\<forall>j<i. code (xs ! j) \<noteq> k)"
proof (induction xs)
  case Nil
  then show ?case by simp
next
  case (Cons x xs)
  show ?case
  proof (cases "code x = k")
    case True
    with Cons.prems have "s = x" by simp
    with True show ?thesis by (intro exI [of _ 0]) simp
  next
    case False
    with Cons.prems have "find_code k xs = Some s" by simp
    from Cons.IH [OF this] obtain i where i: "i < length xs" "s = xs ! i" "code s = k"
      "\<forall>j<i. code (xs ! j) \<noteq> k" by blast
    have "\<forall>j<Suc i. code ((x # xs) ! j) \<noteq> k"
      using False i(4) by (auto simp: less_Suc_eq_0_disj)
    with i show ?thesis by (intro exI [of _ "Suc i"]) simp
  qed
qed

text \<open>
  The input \<open>SH001\<close> followed by a space: no record of the store has that text as its
  code, and the search returns the record of code \<open>SH001\<close>.
\<close>

theorem padded_input_counterexample:
  "shoes_list padded_world = three_shoes \<and> length three_shoes = 3 \<and>
   stdin padded_world = [''SH001 ''] \<and>
   code (three_shoes ! 0) \<noteq> ''SH001 '' \<and> code (three_shoes ! 1) \<noteq> ''SH001 '' \<and>
   code (three_shoes ! 2) \<noteq> ''SH001 '' \<and>
   search_shoe padded_world =
     Returned (Some (three_shoes ! 0)) (print (Prompt ask_search) padded_world\<lparr>stdin := []\<rparr>)"
  by (simp add: search_shoe_def padded_world_def three_shoes_def input_def print_def
      strip_def is_space_def)

text \<open>
  Claim C8, as the code has it. On an empty store \<open>search_shoe\<close> prints the nothing-loaded
  notice, reads no input and returns \<open>None\<close>. On a non-empty store it reads one line and
  removes the whitespace at both ends of it; it returns the record at the least position
  whose code equals the remaining text character for character, or \<open>None\<close> when no
  record of the store has that code; the store and the disk stay as they were.
\<close>

theorem search_shoe_first_match:
  "(shoes_list w = [] \<longrightarrow> search_shoe w = Returned None (print NothingLoaded w)) \<and>
   (shoes_list w \<noteq> [] \<and> stdin w = l # rest \<longrightarrow>
      (\<exists>r. search_shoe w = Returned r (print (Prompt ask_search) w\<lparr>stdin := rest\<rparr>) \<and>
           (case r of
              None \<Rightarrow> \<forall>s\<in>set (shoes_list w). code s \<noteq> strip l
            | Some s \<Rightarrow>
                \<exists>i<length (shoes_list w).
                  s = shoes_list w ! i \<and> code s = strip l \<and>
                  (\<forall>j<i. code (shoes_list w ! j) \<noteq> strip l))))"
proof (intro conjI impI)
  assume "shoes_list w = []"
  then show "search_shoe w = Returned None (print NothingLoaded w)"
    by (simp add: search_shoe_def)
next
  assume a: "shoes_list w \<noteq> [] \<and> stdin w = l # rest"
  let ?r = "find_code (strip l) (shoes_list w)"
  let ?P = "\<lambda>r. case r of
              None \<Rightarrow> \<forall>s\<in>set (shoes_list w). code s \<noteq> strip l
            | Some s \<Rightarrow>
                \<exists>i<length (shoes_list w).
                  s = shoes_list w ! i \<and> code s = strip l \<and>
                  (\<forall>j<i. code (shoes_list w ! j) \<noteq> strip l)"
  have run: "search_shoe w = Returned ?r (print (Prompt ask_search) w\<lparr>stdin := rest\<rparr>)"
    using a by (simp add: search_shoe_def input_def print_def)
  have "?P ?r"
  proof (cases ?r)
    case None
    then have "\<forall>s\<in>set (shoes_list w). code s \<noteq> strip l" by (simp add: find_code_None)
    then show ?thesis unfolding None by simp
  next
    case (Some s)
    from find_code_Some [OF this] show ?thesis unfolding Some by simp
  qed
  with run show "\<exists>r. search_shoe w = Returned r (print (Prompt ask_search) w\<lparr>stdin := rest\<rparr>) \<and> ?P r"
    by blast
qed

theorem search_shoe_first_match_witness:
  "shoes_list search_world \<noteq> [] \<and> stdin search_world = '' SH002 '' # [] \<and>
   search_shoe search_world =
     Returned (Some (three_shoes ! 1)) (print (Prompt ask_search) search_world\<lparr>stdin := []\<rparr>)"
proof -
  have h: "shoes_list search_world \<noteq> [] \<and> stdin search_world = '' SH002 '' # []"
    by (simp add: search_world_def three_shoes_def)
  from search_shoe_first_match [of search_world "'' SH002 ''" "[]"] h
  obtain r where r: "search_shoe search_world =
      Returned r (print (Prompt ask_search) search_world\<lparr>stdin := []\<rparr>)"
    by blast
  have "search_shoe search_world =
      Returned (Some (three_shoes ! 1)) (print (Prompt ask_search) search_world\<lparr>stdin := []\<rparr>)"
    by (simp add: search_shoe_def search_world_def three_shoes_def input_def print_def
        strip_def is_space_def)
  with h r show ?thesis by simp
qed

section \<open>The prompt loops\<close>

declare cost_loop.simps [simp del] quantity_loop.simps [simp del] add_qty_loop.simps [simp del]

lemma cost_loop_run:
  "stdin w = bads @ good # rest \<Longrightarrow> \<forall>b\<in>set bads. pf (strip b) = None \<Longrightarrow>
   pf (strip good) = Some c \<Longrightarrow>
   cost_loop pf w =
     Returned c (w\<lparr>stdin := rest,
        stdout := stdout w @ concat (map (\<lambda>b. [Prompt ask_cost, InvalidCost]) bads) @ [Prompt ask_cost]\<rparr>)"
proof (induction bads arbitrary: w)
  case Nil
  then show ?case
    by (subst cost_loop.simps) (simp add: input_def print_def)
next
  case (Cons b bads)
  let ?w = "print InvalidCost ((print (Prompt ask_cost) w)\<lparr>stdin := bads @ good # rest\<rparr>)"
  have step: "cost_loop pf w = cost_loop pf ?w"
    using Cons.prems by (subst cost_loop.simps) (simp add: input_def)
  have "stdin ?w = bads @ good # rest" by (simp add: print_def)
  from Cons.IH [OF this] Cons.prems
  have "cost_loop pf ?w = Returned c (?w\<lparr>stdin := rest,
        stdout := stdout ?w @ concat (map (\<lambda>b. [Prompt ask_cost, InvalidCost]) bads) @ [Prompt ask_cost]\<rparr>)"
    by simp
  with step show ?case by (simp add: print_def)
qed

lemma quantity_loop_run:
  "stdin w = bads @ good # rest \<Longrightarrow> \<forall>b\<in>set bads. py_int (strip b) = None \<Longrightarrow>
   py_int (strip good) = Some q \<Longrightarrow>
   quantity_loop w =
     Returned q (w\<lparr>stdin := rest,
        stdout := stdout w @ concat (map (\<lambda>b. [Prompt ask_quantity, InvalidQuantity]) bads)
                   @ [Prompt ask_quantity]\<rparr>)"
proof (induction bads arbitrary: w)
  case Nil
  then show ?case
    by (subst quantity_loop.simps) (simp add: input_def print_def)
next
  case (Cons b bads)
  let ?w = "print InvalidQuantity ((print (Prompt ask_quantity) w)\<lparr>stdin := bads @ good # rest\<rparr>)"
  have step: "quantity_loop w = quantity_loop ?w"
    using Cons.prems by (subst quantity_loop.simps) (simp add: input_def)
  have "stdin ?w = bads @ good # rest" by (simp add: print_def)
  from Cons.IH [OF this] Cons.prems
  have "quantity_loop ?w = Returned q (?w\<lparr>stdin := rest,
        stdout := stdout ?w @ concat (map (\<lambda>b. [Prompt ask_quantity, InvalidQuantity]) bads)
                   @ [Prompt ask_quantity]\<rparr>)"
    by simp
  with step show ?case by (simp add: print_def)
qed

lemma add_qty_loop_run:
  "stdin w = bads @ good # rest \<Longrightarrow> \<forall>b\<in>set bads. rejected b \<Longrightarrow>
   py_int (strip good) = Some k \<Longrightarrow> 0 < k \<Longrightarrow>
   add_qty_loop w =
     Returned k (w\<lparr>stdin := rest,
        stdout := stdout w @ concat (map (\<lambda>b. [Prompt ask_units, refusal b]) bads)
                   @ [Prompt ask_units]\<rparr>)"
proof (induction bads arbitrary: w)
  case Nil
  then show ?case
    by (subst add_qty_loop.simps) (simp add: input_def print_def)
next
  case (Cons b bads)
  let ?w = "print (refusal b) ((print (Prompt ask_units) w)\<lparr>stdin := bads @ good # rest\<rparr>)"
  have "rejected b" using Cons.prems(2) by simp
  then have step: "add_qty_loop w = add_qty_loop ?w"
    using Cons.prems(1)
    by (subst add_qty_loop.simps)
       (auto simp: input_def rejected_def refusal_def split: option.splits)
  have "stdin ?w = bads @ good # rest" by (simp add: print_def)
  from Cons.IH [OF this] Cons.prems
  have "add_qty_loop ?w = Returned k (?w\<lparr>stdin := rest,
        stdout := stdout ?w @ concat (map (\<lambda>b. [Prompt ask_units, refusal b]) bads)
                   @ [Prompt ask_units]\<rparr>)"
    by simp
  with step show ?case by (simp add: print_def)
qed

section \<open>Restock in memory\<close>

lemma min_scan_first_min:
  "all = pre @ qs \<Longrightarrow> best < length pre \<Longrightarrow> bv = all ! best \<Longrightarrow>
   \<forall>j<length pre. bv \<le> all ! j \<Longrightarrow> \<forall>j<best. bv < all ! j \<Longrightarrow>
   min_scan qs (length pre) best bv < length all \<and>
   (\<forall>j<length all. all ! min_scan qs (length pre) best bv \<le> all ! j) \<and>
   (\<forall>j<min_scan qs (length pre) best bv. all ! min_scan qs (length pre) best bv < all ! j)"
proof (induction qs arbitrary: pre best bv)
  case Nil
  then show ?case by simp
next
  case (Cons q qs)
  let ?pre = "pre @ [q]"
  have all: "all = ?pre @ qs" using Cons.prems(1) by simp
  have q: "all ! length pre = q" using Cons.prems(1) by simp
  show ?case
  proof (cases "q < bv")
    case True
    have 1: "length pre < length ?pre" by simp
    have 2: "q = all ! length pre" using q by simp
    have 3: "\<forall>j<length ?pre. q \<le> all ! j"
      using True Cons.prems(4) q by (auto simp: less_Suc_eq)
    have 4: "\<forall>j<length pre. q < all ! j"
      using True Cons.prems(4) by fastforce
    from Cons.IH [OF all 1 2 3 4] True show ?thesis by simp
  next
    case False
    have 1: "best < length ?pre" using Cons.prems(2) by simp
    have 3: "\<forall>j<length ?pre. bv \<le> all ! j"
      using False Cons.prems(4) q by (auto simp: less_Suc_eq)
    from Cons.IH [OF all 1 Cons.prems(3) 3 Cons.prems(5)] False show ?thesis by simp
  qed
qed

lemma min_index_first_min:
  "qs \<noteq> [] \<Longrightarrow>
   \<exists>i. min_index qs = Some i \<and> i < length qs \<and> (\<forall>j<length qs. qs ! i \<le> qs ! j) \<and>
       (\<forall>j<i. qs ! i < qs ! j)"
proof -
  assume "qs \<noteq> []"
  then obtain q rest where qs: "qs = q # rest" by (cases qs) auto
  have "min_scan rest (length [q]) 0 q < length qs \<and>
     (\<forall>j<length qs. qs ! min_scan rest (length [q]) 0 q \<le> qs ! j) \<and>
     (\<forall>j<min_scan rest (length [q]) 0 q. qs ! min_scan rest (length [q]) 0 q < qs ! j)"
    by (rule min_scan_first_min [where pre = "[q]"]) (simp_all add: qs)
  then show ?thesis by (simp add: min_index_def qs)
qed


lemma update_frame:
  "update_quantity_in_file t q w = (b, w') \<Longrightarrow>
     shoes_list w' = shoes_list w \<and> stdin w' = stdin w \<and> (\<exists>ms. stdout w' = stdout w @ ms)"
  by (auto simp: update_quantity_in_file_def print_def
      split: sum.splits io_error.splits prod.splits)

lemma re_stock_confirmed:
  fixes w :: "'c world"
  assumes ne: "shoes_list w \<noteq> []"
    and i: "min_index (map quantity (shoes_list w)) = Some i"
    and ins: "stdin w = l # bads @ good # rest"
    and yes: "lower (strip l) = ''y''"
    and bads: "\<forall>b\<in>set bads. rejected b"
    and good: "py_int (strip good) = Some k" "0 < k"
    and w4: "w4 = w\<lparr>shoes_list := restocked (shoes_list w) i k, stdin := rest,
               stdout := stdout w @ [LowestHeader, ShowShoe (shoes_list w ! i), Prompt ask_confirm]
                 @ concat (map (\<lambda>b. [Prompt ask_units, refusal b]) bads)
                 @ [Prompt ask_units]\<rparr>"
    and upd: "update_quantity_in_file (code (shoes_list w ! i)) (quantity (shoes_list w ! i) + k) w4
               = (updated, w5)"
  shows "re_stock w =
           Returned ()
             (print (ShowShoe (restocked (shoes_list w) i k ! i))
                (print StockUpdated (if \<not> updated then print FileLineWarning w5 else w5)))"
proof -
  define w1 where "w1 = print (ShowShoe (shoes_list w ! i)) (print LowestHeader w)"
  define w2 where "w2 = (print (Prompt ask_confirm) w1)\<lparr>stdin := bads @ good # rest\<rparr>"
  define w3 where "w3 = w2\<lparr>stdin := rest,
        stdout := stdout w2 @ concat (map (\<lambda>b. [Prompt ask_units, refusal b]) bads)
                   @ [Prompt ask_units]\<rparr>"
  have inp: "input ask_confirm w1 = Inr (l, w2)"
    using ins by (simp add: input_def print_def w1_def w2_def)
  have "stdin w2 = bads @ good # rest" by (simp add: w2_def)
  from add_qty_loop_run [OF this bads good]
  have loop: "add_qty_loop w2 = Returned k w3" by (simp add: w3_def)
  have s3: "shoes_list w3 = shoes_list w" by (simp add: print_def w1_def w2_def w3_def)
  have w4': "w3\<lparr>shoes_list := (shoes_list w)[i := (shoes_list w ! i)\<lparr>quantity :=
                 quantity (shoes_list w ! i) + k\<rparr>]\<rparr> = w4"
    by (simp add: w4 print_def restocked_def w1_def w2_def w3_def)
  from update_frame [OF upd] have s5: "shoes_list w5 = restocked (shoes_list w) i k"
    by (simp add: w4)
  have s6: "shoes_list (if \<not> updated then print FileLineWarning w5 else w5)
              = restocked (shoes_list w) i k"
    by (simp add: s5 print_def)
  have "re_stock w =
      (case input ask_confirm w1 of
                Inl w2 \<Rightarrow> Raised EOFError w2
              | Inr (l, w2) \<Rightarrow>
                  if lower (strip l) \<noteq> ''y'' then Returned () (print RestockCancelled w2)
                  else
                    (case add_qty_loop w2 of
                       Raised e w3 \<Rightarrow> Raised e w3
                     | Returned add_qty w3 \<Rightarrow>
                         (let s = shoes_list w3 ! i;
                              s' = s\<lparr>quantity := quantity s + add_qty\<rparr>;
                              w4 = w3\<lparr>shoes_list := (shoes_list w3)[i := s']\<rparr>
                          in case update_quantity_in_file (code s') (quantity s') w4 of
                               (updated, w5) \<Rightarrow>
                                 (let w6 = (if \<not> updated then print FileLineWarning w5 else w5)
                                  in Returned ()
                                       (print (ShowShoe (shoes_list w6 ! i))
                                          (print StockUpdated w6))))))"
    unfolding re_stock_def w1_def using ne i by simp
  also have "\<dots> = Returned ()
             (print (ShowShoe (restocked (shoes_list w) i k ! i))
                (print StockUpdated (if \<not> updated then print FileLineWarning w5 else w5)))"
    unfolding inp using yes
    by (simp add: loop Let_def s3 w4' upd s6 del: One_nat_def)
  finally show ?thesis .
qed


lemma lower_char_y: "(lower_char c = CHR ''y'') = (c = CHR ''y'' \<or> c = CHR ''Y'')"
proof -
  have a: "\<And>d e. (d = e) = ((of_char d :: nat) = of_char e)" by simp
  define n where "n = (of_char c :: nat)"
  have lt: "n < 256" by (simp add: n_def)
  have "(of_char (lower_char c) = (121 :: nat)) = (n = 121 \<or> n = 89)"
    unfolding lower_char_def Let_def n_def [symmetric] using lt
    by (simp add: n_def [symmetric]) presburger
  then show ?thesis
    unfolding a [of _ "CHR ''y''"] a [of _ "CHR ''Y''"] by (simp add: n_def)
qed

lemma lower_y: "(lower s = ''y'') = (s = ''y'' \<or> s = ''Y'')"
  using lower_char_y by (cases s) (auto simp: lower_def)

lemma re_stock_declined:
  assumes ne: "shoes_list w \<noteq> []"
    and i: "min_index (map quantity (shoes_list w)) = Some i"
    and ins: "stdin w = l # rest"
    and no: "lower (strip l) \<noteq> ''y''"
  shows "re_stock w = Returned ()
           (w\<lparr>stdin := rest,
              stdout := stdout w @ [LowestHeader, ShowShoe (shoes_list w ! i),
                                    Prompt ask_confirm, RestockCancelled]\<rparr>)"
  using assms by (simp add: re_stock_def input_def print_def)


text \<open>
  Claim C7. On an empty store \<open>re_stock\<close> prints the nothing-loaded notice and changes
  nothing else. On a non-empty store, when the operator answers the confirmation with
  \<open>y\<close>, then gives any number of rejected increments (no whole number, zero, negative)
  and then a whole number \<open>k > 0\<close>, \<open>re_stock\<close> returns; the record it changed is at the
  position \<open>i\<close> whose quantity is least in the store and strictly less than every quantity
  before it (the first minimum); the store afterwards is the old one with that record's
  quantity raised by exactly \<open>k\<close>; and every rejected text was answered by its notice and
  a fresh prompt.
\<close>

theorem re_stock_lowest_first:
  "(shoes_list w = [] \<longrightarrow> re_stock w = Returned () (print NothingLoaded w)) \<and>
   (shoes_list w \<noteq> [] \<and> stdin w = l # bads @ good # rest \<and> lower (strip l) = ''y'' \<and>
    (\<forall>b\<in>set bads. rejected b) \<and> py_int (strip good) = Some k \<and> 0 < k \<longrightarrow>
      (\<exists>i w'. re_stock w = Returned () w' \<and> i < length (shoes_list w) \<and>
         (\<forall>j<length (shoes_list w). quantity (shoes_list w ! i) \<le> quantity (shoes_list w ! j)) \<and>
         (\<forall>j<i. quantity (shoes_list w ! i) < quantity (shoes_list w ! j)) \<and>
         shoes_list w' =
           (shoes_list w)[i := (shoes_list w ! i)\<lparr>quantity := quantity (shoes_list w ! i) + k\<rparr>] \<and>
         stdin w' = rest \<and>
         (\<exists>tail. stdout w' =
            stdout w @ [LowestHeader, ShowShoe (shoes_list w ! i), Prompt ask_confirm]
              @ concat (map (\<lambda>b. [Prompt ask_units, refusal b]) bads)
              @ [Prompt ask_units] @ tail)))"
proof (intro conjI impI)
  assume "shoes_list w = []"
  then show "re_stock w = Returned () (print NothingLoaded w)"
    by (simp add: re_stock_def)
next
  assume a: "shoes_list w \<noteq> [] \<and> stdin w = l # bads @ good # rest \<and> lower (strip l) = ''y'' \<and>
    (\<forall>b\<in>set bads. rejected b) \<and> py_int (strip good) = Some k \<and> 0 < k"
  let ?xs = "shoes_list w"
  let ?qs = "map quantity ?xs"
  from a have "?qs \<noteq> []" by simp
  from min_index_first_min [OF this] obtain i where i: "min_index ?qs = Some i"
    "i < length ?qs" "\<forall>j<length ?qs. ?qs ! i \<le> ?qs ! j" "\<forall>j<i. ?qs ! i < ?qs ! j"
    by blast
  define w4 where "w4 = w\<lparr>shoes_list := restocked ?xs i k, stdin := rest,
               stdout := stdout w @ [LowestHeader, ShowShoe (?xs ! i), Prompt ask_confirm]
                 @ concat (map (\<lambda>b. [Prompt ask_units, refusal b]) bads)
                 @ [Prompt ask_units]\<rparr>"
  obtain updated w5 where
    upd: "update_quantity_in_file (code (?xs ! i)) (quantity (?xs ! i) + k) w4 = (updated, w5)"
    by (cases "update_quantity_in_file (code (?xs ! i)) (quantity (?xs ! i) + k) w4") blast
  define w6 where "w6 = (if \<not> updated then print FileLineWarning w5 else w5)"
  define w' where "w' = print (ShowShoe (restocked ?xs i k ! i)) (print StockUpdated w6)"
  have run: "re_stock w = Returned () w'"
    unfolding w'_def w6_def
    using a by (intro re_stock_confirmed [OF _ i(1) _ _ _ _ _ w4_def upd]) blast+
  from update_frame [OF upd] obtain ms where
    f: "shoes_list w5 = shoes_list w4" "stdin w5 = stdin w4" "stdout w5 = stdout w4 @ ms"
    by blast
  have s: "shoes_list w' = restocked ?xs i k" "stdin w' = rest"
    by (simp_all add: w'_def w6_def print_def f w4_def)
  have o: "stdout w' = stdout w4 @ ms @ (if \<not> updated then [FileLineWarning] else [])
              @ [StockUpdated, ShowShoe (restocked ?xs i k ! i)]"
    by (simp add: w'_def w6_def print_def f)
  have 1: "\<forall>j<length ?xs. quantity (?xs ! i) \<le> quantity (?xs ! j)"
    using i(2,3) by simp
  have 2: "\<forall>j<i. quantity (?xs ! i) < quantity (?xs ! j)"
    using i(2,4) by simp
  have 3: "\<exists>tail. stdout w' =
            stdout w @ [LowestHeader, ShowShoe (?xs ! i), Prompt ask_confirm]
              @ concat (map (\<lambda>b. [Prompt ask_units, refusal b]) bads)
              @ [Prompt ask_units] @ tail"
    unfolding o by (simp add: w4_def)
  from run i(2) 1 2 s 3
  show "\<exists>i w'. re_stock w = Returned () w' \<and> i < length ?xs \<and>
         (\<forall>j<length ?xs. quantity (?xs ! i) \<le> quantity (?xs ! j)) \<and>
         (\<forall>j<i. quantity (?xs ! i) < quantity (?xs ! j)) \<and>
         shoes_list w' = ?xs[i := (?xs ! i)\<lparr>quantity := quantity (?xs ! i) + k\<rparr>] \<and>
         stdin w' = rest \<and>
         (\<exists>tail. stdout w' =
            stdout w @ [LowestHeader, ShowShoe (?xs ! i), Prompt ask_confirm]
              @ concat (map (\<lambda>b. [Prompt ask_units, refusal b]) bads)
              @ [Prompt ask_units] @ tail)"
    unfolding restocked_def by (intro exI [of _ i] exI [of _ w']) simp
qed

theorem re_stock_lowest_first_witness:
  "shoes_list restock_world \<noteq> [] \<and>
   stdin restock_world = '' Y '' # [''0'', ''-4'', ''ten''] @ ''+10'' # [''7''] \<and>
   lower (strip '' Y '') = ''y'' \<and> rejected ''0'' \<and> rejected ''-4'' \<and> rejected ''ten'' \<and>
   py_int (strip ''+10'') = Some 10 \<and> (0 :: int) < 10 \<and>
   (\<exists>w'. re_stock restock_world = Returned () w' \<and>
      shoes_list w' = three_shoes[0 := (three_shoes ! 0)\<lparr>quantity := 13\<rparr>] \<and> stdin w' = [''7''])"
proof -
  have h: "shoes_list restock_world \<noteq> [] \<and>
     stdin restock_world = '' Y '' # [''0'', ''-4'', ''ten''] @ ''+10'' # [''7''] \<and>
     lower (strip '' Y '') = ''y'' \<and> rejected ''0'' \<and> rejected ''-4'' \<and> rejected ''ten'' \<and>
     py_int (strip ''+10'') = Some 10 \<and> (0 :: int) < 10"
    by (simp add: restock_world_def three_shoes_def lower_y strip_def is_space_def
        rejected_def py_int_def is_digit_def digit_val_def)
  from re_stock_lowest_first [of restock_world "'' Y ''" "[''0'', ''-4'', ''ten'']" "''+10''"
      "[''7'']" 10] h
  have "\<exists>i w'. re_stock restock_world = Returned () w' \<and>
      i < length (shoes_list restock_world) \<and>
      (\<forall>j<length (shoes_list restock_world).
        quantity (shoes_list restock_world ! i) \<le> quantity (shoes_list restock_world ! j)) \<and>
      (\<forall>j<i. quantity (shoes_list restock_world ! i) < quantity (shoes_list restock_world ! j)) \<and>
      shoes_list w' = (shoes_list restock_world)[i := (shoes_list restock_world ! i)
        \<lparr>quantity := quantity (shoes_list restock_world ! i) + 10\<rparr>] \<and>
      stdin w' = [''7'']"
    by auto
  then obtain i w' where r: "re_stock restock_world = Returned () w'"
    "i < length (shoes_list restock_world)"
    "\<forall>j<length (shoes_list restock_world).
        quantity (shoes_list restock_world ! i) \<le> quantity (shoes_list restock_world ! j)"
    "\<forall>j<i. quantity (shoes_list restock_world ! i) < quantity (shoes_list restock_world ! j)"
    "shoes_list w' = (shoes_list restock_world)[i := (shoes_list restock_world ! i)
        \<lparr>quantity := quantity (shoes_list restock_world ! i) + 10\<rparr>]"
    "stdin w' = [''7'']"
    by blast
  have "i = 0"
  proof (rule ccontr)
    assume "i \<noteq> 0"
    then have "0 < i" by simp
    with r(4) have "quantity (shoes_list restock_world ! i) < quantity (shoes_list restock_world ! 0)"
      by blast
    moreover from r(3) [rule_format, of 2]
    have "quantity (shoes_list restock_world ! i) \<le> quantity (shoes_list restock_world ! 2)"
      by (simp add: restock_world_def three_shoes_def)
    ultimately show False
      using r(2) by (auto simp: restock_world_def three_shoes_def less_Suc_eq numeral_3_eq_3)
  qed
  with r(5) have "shoes_list w' = three_shoes[0 := (three_shoes ! 0)\<lparr>quantity := 13\<rparr>]"
    by (simp add: restock_world_def three_shoes_def)
  with h r(1,6) show ?thesis by blast
qed

text \<open>
  Claim C10. On a non-empty store the answer to the confirmation prompt is stripped and
  lower-cased and compared with \<open>y\<close>: the answers that pass are exactly those that strip
  to \<open>y\<close> or \<open>Y\<close>. Any other answer makes \<open>re_stock\<close> print the cancellation notice
  and return with the store and the disk as they were. An answer that passes lets the next
  valid increment change the store.
\<close>

theorem re_stock_confirmation:
  "shoes_list w \<noteq> [] \<and> stdin w = l # rest \<longrightarrow>
     (lower (strip l) = ''y'') = (strip l = ''y'' \<or> strip l = ''Y'') \<and>
     (lower (strip l) \<noteq> ''y'' \<longrightarrow>
        (\<exists>i<length (shoes_list w).
           re_stock w = Returned ()
             (w\<lparr>stdin := rest,
                stdout := stdout w @ [LowestHeader, ShowShoe (shoes_list w ! i),
                                      Prompt ask_confirm, RestockCancelled]\<rparr>))) \<and>
     (lower (strip l) = ''y'' \<longrightarrow>
        (\<forall>good rest' k. rest = good # rest' \<and> py_int (strip good) = Some k \<and> 0 < k \<longrightarrow>
           (\<exists>w'. re_stock w = Returned () w' \<and> shoes_list w' \<noteq> shoes_list w)))"
proof (intro impI conjI allI)
  show "(lower (strip l) = ''y'') = (strip l = ''y'' \<or> strip l = ''Y'')"
    by (rule lower_y)
next
  assume a: "shoes_list w \<noteq> [] \<and> stdin w = l # rest" and no: "lower (strip l) \<noteq> ''y''"
  from a have "map quantity (shoes_list w) \<noteq> []" by simp
  from min_index_first_min [OF this] obtain i where
    i: "min_index (map quantity (shoes_list w)) = Some i" "i < length (shoes_list w)"
    by auto
  from re_stock_declined [OF _ i(1) _ no] a i(2)
  show "\<exists>i<length (shoes_list w).
           re_stock w = Returned ()
             (w\<lparr>stdin := rest,
                stdout := stdout w @ [LowestHeader, ShowShoe (shoes_list w ! i),
                                      Prompt ask_confirm, RestockCancelled]\<rparr>)"
    by blast
next
  fix good rest' k
  assume a: "shoes_list w \<noteq> [] \<and> stdin w = l # rest" and yes: "lower (strip l) = ''y''"
    and g: "rest = good # rest' \<and> py_int (strip good) = Some k \<and> 0 < k"
  let ?xs = "shoes_list w"
  from a have "map quantity ?xs \<noteq> []" by simp
  from min_index_first_min [OF this] obtain i where
    i: "min_index (map quantity ?xs) = Some i" "i < length ?xs"
    by auto
  define w4 where "w4 = w\<lparr>shoes_list := restocked ?xs i k, stdin := rest',
               stdout := stdout w @ [LowestHeader, ShowShoe (?xs ! i), Prompt ask_confirm]
                 @ concat (map (\<lambda>b. [Prompt ask_units, refusal b]) [])
                 @ [Prompt ask_units]\<rparr>"
  obtain updated w5 where
    upd: "update_quantity_in_file (code (?xs ! i)) (quantity (?xs ! i) + k) w4 = (updated, w5)"
    by (cases "update_quantity_in_file (code (?xs ! i)) (quantity (?xs ! i) + k) w4") blast
  define w' where "w' = print (ShowShoe (restocked ?xs i k ! i))
      (print StockUpdated (if \<not> updated then print FileLineWarning w5 else w5))"
  have run: "re_stock w = Returned () w'"
    unfolding w'_def
    using a g
    by (intro re_stock_confirmed [where bads = "[]", OF _ i(1) _ yes _ _ _ w4_def upd]) auto
  from update_frame [OF upd] have "shoes_list w5 = shoes_list w4" by blast
  then have s: "shoes_list w' = restocked ?xs i k"
    by (simp add: w'_def print_def w4_def)
  have "quantity (restocked ?xs i k ! i) \<noteq> quantity (?xs ! i)"
    using i(2) g by (simp add: restocked_def)
  then have "restocked ?xs i k \<noteq> ?xs" by auto
  with run s show "\<exists>w'. re_stock w = Returned () w' \<and> shoes_list w' \<noteq> shoes_list w"
    by simp
qed

theorem re_stock_confirmation_witness:
  "shoes_list decline_world \<noteq> [] \<and> stdin decline_world = ''yes'' # [''10''] \<and>
   lower (strip ''yes'') \<noteq> ''y'' \<and>
   (\<exists>i<length (shoes_list decline_world).
      re_stock decline_world = Returned ()
        (decline_world\<lparr>stdin := [''10''],
           stdout := stdout decline_world @ [LowestHeader, ShowShoe (shoes_list decline_world ! i),
                                      Prompt ask_confirm, RestockCancelled]\<rparr>))"
proof -
  have h: "shoes_list decline_world \<noteq> [] \<and> stdin decline_world = ''yes'' # [''10'']"
    by (simp add: decline_world_def three_shoes_def)
  have n: "lower (strip ''yes'') \<noteq> ''y''"
    by (simp add: lower_y strip_def is_space_def)
  from re_stock_confirmation [of decline_world "''yes''" "[''10'']"] h n
  show ?thesis by blast
qed

section \<open>Capture\<close>

lemma cost_loop_frame:
  "shoes_list (final (cost_loop pf w)) = shoes_list w \<and> disk (final (cost_loop pf w)) = disk w"
proof (induction pf w rule: cost_loop.induct)
  case (1 pf w)
  show ?case
  proof (cases "stdin w")
    case Nil
    then show ?thesis by (subst (1 2) cost_loop.simps) (simp add: input_def print_def)
  next
    case (Cons l ls)
    let ?w = "(print (Prompt ask_cost) w)\<lparr>stdin := ls\<rparr>"
    have inp: "input ask_cost w = Inr (l, ?w)" by (simp add: input_def Cons)
    show ?thesis
    proof (cases "pf (strip l)")
      case None
      from "1.IH" [OF inp refl None]
      show ?thesis by (subst (1 2) cost_loop.simps) (simp add: inp None print_def)
    next
      case (Some c)
      then show ?thesis by (subst (1 2) cost_loop.simps) (simp add: inp print_def)
    qed
  qed
qed

lemma quantity_loop_frame:
  "shoes_list (final (quantity_loop w)) = shoes_list w \<and> disk (final (quantity_loop w)) = disk w"
proof (induction w rule: quantity_loop.induct)
  case (1 w)
  show ?case
  proof (cases "stdin w")
    case Nil
    then show ?thesis by (subst (1 2) quantity_loop.simps) (simp add: input_def print_def)
  next
    case (Cons l ls)
    let ?w = "(print (Prompt ask_quantity) w)\<lparr>stdin := ls\<rparr>"
    have inp: "input ask_quantity w = Inr (l, ?w)" by (simp add: input_def Cons)
    show ?thesis
    proof (cases "py_int (strip l)")
      case None
      from "1.IH" [OF inp refl None]
      show ?thesis by (subst (1 2) quantity_loop.simps) (simp add: inp None print_def)
    next
      case (Some c)
      then show ?thesis by (subst (1 2) quantity_loop.simps) (simp add: inp print_def)
    qed
  qed
qed

lemma input_frame:
  "input p w = Inr (l, w') \<Longrightarrow> shoes_list w' = shoes_list w \<and> disk w' = disk w"
  "input p w = Inl w' \<Longrightarrow> shoes_list w' = shoes_list w \<and> disk w' = disk w"
  by (auto simp: input_def print_def split: list.splits)

lemma capture_frame:
  "disk (final (capture_shoes pf w)) = disk w \<and>
   (case capture_shoes pf w of
      Returned u w' \<Rightarrow> \<exists>r. shoes_list w' = shoes_list w @ [r]
    | Raised e w' \<Rightarrow> shoes_list w' = shoes_list w)"
proof -
  have c: "\<And>v. shoes_list (final (cost_loop pf v)) = shoes_list v \<and>
                disk (final (cost_loop pf v)) = disk v"
    by (rule cost_loop_frame)
  have q: "\<And>v. shoes_list (final (quantity_loop v)) = shoes_list v \<and>
                disk (final (quantity_loop v)) = disk (v :: 'a world)"
    by (rule quantity_loop_frame)
  show ?thesis
    unfolding capture_shoes_def
    apply (simp split: sum.splits prod.splits outcome.splits add: print_def)
    apply (intro conjI allI impI)
    using c q input_frame
    apply (metis final.simps)+
    done
qed


lemma capture_run:
  assumes ins: "stdin w = l1 # l2 # l3 # badc @ goodc # badq @ goodq # rest"
    and bc: "\<forall>b\<in>set badc. pf (strip b) = None" and gc: "pf (strip goodc) = Some c"
    and bq: "\<forall>b\<in>set badq. py_int (strip b) = None" and gq: "py_int (strip goodq) = Some q"
  shows "capture_shoes pf w =
           Returned ()
             (captured w \<lparr>country = strip l1, code = strip l2, product = strip l3,
                          cost = c, quantity = q\<rparr> badc badq rest)"
proof -
  define w1 where "w1 = (print (Prompt ask_country) w)\<lparr>stdin := l2 # l3 # badc @ goodc # badq @ goodq # rest\<rparr>"
  define w2 where "w2 = (print (Prompt ask_code) w1)\<lparr>stdin := l3 # badc @ goodc # badq @ goodq # rest\<rparr>"
  define w3 where "w3 = (print (Prompt ask_product) w2)\<lparr>stdin := badc @ goodc # badq @ goodq # rest\<rparr>"
  define w4 where "w4 = w3\<lparr>stdin := badq @ goodq # rest,
        stdout := stdout w3 @ concat (map (\<lambda>b. [Prompt ask_cost, InvalidCost]) badc) @ [Prompt ask_cost]\<rparr>"
  define w5 where "w5 = w4\<lparr>stdin := rest,
        stdout := stdout w4 @ concat (map (\<lambda>b. [Prompt ask_quantity, InvalidQuantity]) badq)
                   @ [Prompt ask_quantity]\<rparr>"
  have i1: "input ask_country w = Inr (l1, w1)" by (simp add: input_def ins w1_def)
  have i2: "input ask_code w1 = Inr (l2, w2)" by (simp add: input_def w1_def w2_def)
  have i3: "input ask_product w2 = Inr (l3, w3)" by (simp add: input_def w2_def w3_def)
  have "stdin w3 = badc @ goodc # badq @ goodq # rest" by (simp add: w3_def)
  from cost_loop_run [OF this bc gc] have c: "cost_loop pf w3 = Returned c w4"
    by (simp add: w4_def)
  have "stdin w4 = badq @ goodq # rest" by (simp add: w4_def)
  from quantity_loop_run [OF this bq gq] have q: "quantity_loop w4 = Returned q w5"
    by (simp add: w5_def)
  have "capture_shoes pf w =
     Returned () (print Captured (w5\<lparr>shoes_list := shoes_list w5 @
                     [\<lparr>country = strip l1, code = strip l2, product = strip l3,
                       cost = c, quantity = q\<rparr>]\<rparr>))"
    by (simp add: capture_shoes_def i1 i2 i3 c q)
  also have "print Captured (w5\<lparr>shoes_list := shoes_list w5 @
                     [\<lparr>country = strip l1, code = strip l2, product = strip l3,
                       cost = c, quantity = q\<rparr>]\<rparr>) =
      captured w \<lparr>country = strip l1, code = strip l2, product = strip l3,
                          cost = c, quantity = q\<rparr> badc badq rest"
    by (simp add: captured_def print_def w1_def w2_def w3_def w4_def w5_def)
  finally show ?thesis .
qed

text \<open>
  Claim C9. Whatever the operator types, \<open>capture_shoes\<close> leaves the disk as it was, and
  when it returns the store is the old one with exactly one record appended. When the input
  holds three texts for country, code and product (any texts, the empty one too), then any
  number of cost texts that \<^verbatim>\<open>float\<close> refuses followed by one it accepts, then any number
  of quantity texts that \<^verbatim>\<open>int\<close> refuses followed by one it accepts, \<open>capture_shoes\<close>
  returns, whatever the file is: the appended record holds the three stripped texts and the
  two parsed numbers, and each refused text was answered by its notice and a new prompt.
\<close>

theorem capture_shoes_appends_one:
  "disk (final (capture_shoes pf w)) = disk w \<and>
   (\<forall>u w'. capture_shoes pf w = Returned u w' \<longrightarrow> (\<exists>r. shoes_list w' = shoes_list w @ [r])) \<and>
   (stdin w = l1 # l2 # l3 # badc @ goodc # badq @ goodq # rest \<and>
    (\<forall>b\<in>set badc. pf (strip b) = None) \<and> pf (strip goodc) = Some c \<and>
    (\<forall>b\<in>set badq. py_int (strip b) = None) \<and> py_int (strip goodq) = Some q \<longrightarrow>
      (\<forall>d. capture_shoes pf (w\<lparr>disk := d\<rparr>) =
         Returned ()
           (w\<lparr>disk := d,
              shoes_list := shoes_list w @
                [\<lparr>country = strip l1, code = strip l2, product = strip l3,
                  cost = c, quantity = q\<rparr>],
              stdin := rest,
              stdout := stdout w @ [Prompt ask_country, Prompt ask_code, Prompt ask_product]
                @ concat (map (\<lambda>b. [Prompt ask_cost, InvalidCost]) badc) @ [Prompt ask_cost]
                @ concat (map (\<lambda>b. [Prompt ask_quantity, InvalidQuantity]) badq)
                @ [Prompt ask_quantity, Captured]\<rparr>)))"
proof (intro conjI allI impI)
  show "disk (final (capture_shoes pf w)) = disk w"
    using capture_frame [of pf w] by blast
next
  fix u w'
  assume "capture_shoes pf w = Returned u w'"
  with capture_frame [of pf w] show "\<exists>r. shoes_list w' = shoes_list w @ [r]" by simp
next
  fix d
  assume a: "stdin w = l1 # l2 # l3 # badc @ goodc # badq @ goodq # rest \<and>
    (\<forall>b\<in>set badc. pf (strip b) = None) \<and> pf (strip goodc) = Some c \<and>
    (\<forall>b\<in>set badq. py_int (strip b) = None) \<and> py_int (strip goodq) = Some q"
  then have "stdin (w\<lparr>disk := d\<rparr>) = l1 # l2 # l3 # badc @ goodc # badq @ goodq # rest"
    by simp
  from capture_run [OF this] a
  have "capture_shoes pf (w\<lparr>disk := d\<rparr>) =
           Returned ()
             (captured (w\<lparr>disk := d\<rparr>) \<lparr>country = strip l1, code = strip l2, product = strip l3,
                          cost = c, quantity = q\<rparr> badc badq rest)"
    by blast
  then show "capture_shoes pf (w\<lparr>disk := d\<rparr>) =
         Returned ()
           (w\<lparr>disk := d,
              shoes_list := shoes_list w @
                [\<lparr>country = strip l1, code = strip l2, product = strip l3,
                  cost = c, quantity = q\<rparr>],
              stdin := rest,
              stdout := stdout w @ [Prompt ask_country, Prompt ask_code, Prompt ask_product]
                @ concat (map (\<lambda>b. [Prompt ask_cost, InvalidCost]) badc) @ [Prompt ask_cost]
                @ concat (map (\<lambda>b. [Prompt ask_quantity, InvalidQuantity]) badq)
                @ [Prompt ask_quantity, Captured]\<rparr>)"
    by (simp add: captured_def)
qed

theorem capture_shoes_appends_one_witness:
  "stdin capture_world =
     '' ZA '' # '''' # ''Boot'' # [''cheap'', ''1.5.0''] @ '' 250 '' # [''a few''] @ ''12'' # [''next''] \<and>
   whole_float (strip ''cheap'') = None \<and> whole_float (strip ''1.5.0'') = None \<and>
   whole_float (strip '' 250 '') = Some 250 \<and>
   py_int (strip ''a few'') = None \<and> py_int (strip ''12'') = Some 12 \<and>
   shoes_list (final (capture_shoes whole_float capture_world)) =
     three_shoes @ [\<lparr>country = ''ZA'', code = '''', product = ''Boot'', cost = 250, quantity = 12\<rparr>] \<and>
   disk (final (capture_shoes whole_float capture_world)) = disk capture_world \<and>
   stdin (final (capture_shoes whole_float capture_world)) = [''next'']"
proof -
  have h: "stdin capture_world =
     '' ZA '' # '''' # ''Boot'' # [''cheap'', ''1.5.0''] @ '' 250 '' # [''a few''] @ ''12'' # [''next''] \<and>
     (\<forall>b\<in>set [''cheap'', ''1.5.0'']. whole_float (strip b) = None) \<and>
     whole_float (strip '' 250 '') = Some 250 \<and>
     (\<forall>b\<in>set [''a few'']. py_int (strip b) = None) \<and> py_int (strip ''12'') = Some 12"
    by (simp add: capture_world_def whole_float_def strip_def is_space_def
        py_int_def is_digit_def digit_val_def)
  have s: "strip '' ZA '' = ''ZA''" "strip '''' = ''''" "strip ''Boot'' = ''Boot''"
    by (simp_all add: strip_def is_space_def)
  from capture_shoes_appends_one [of whole_float capture_world "'' ZA ''" "''''" "''Boot''"
      "[''cheap'', ''1.5.0'']" "'' 250 ''" "[''a few'']" "''12''" "[''next'']" 250 12] h
  have "capture_shoes whole_float (capture_world\<lparr>disk := disk capture_world\<rparr>) =
         Returned ()
           (capture_world\<lparr>disk := disk capture_world,
              shoes_list := shoes_list capture_world @
                [\<lparr>country = strip '' ZA '', code = strip '''', product = strip ''Boot'',
                  cost = 250, quantity = 12\<rparr>],
              stdin := [''next''],
              stdout := stdout capture_world @ [Prompt ask_country, Prompt ask_code, Prompt ask_product]
                @ concat (map (\<lambda>b. [Prompt ask_cost, InvalidCost]) [''cheap'', ''1.5.0'']) @ [Prompt ask_cost]
                @ concat (map (\<lambda>b. [Prompt ask_quantity, InvalidQuantity]) [''a few''])
                @ [Prompt ask_quantity, Captured]\<rparr>)"
    by blast
  then have "shoes_list (final (capture_shoes whole_float capture_world)) =
     three_shoes @ [\<lparr>country = ''ZA'', code = '''', product = ''Boot'', cost = 250, quantity = 12\<rparr>] \<and>
   disk (final (capture_shoes whole_float capture_world)) = disk capture_world \<and>
   stdin (final (capture_shoes whole_float capture_world)) = [''next'']"
    by (simp add: s capture_world_def)
  with h show ?thesis by simp
qed

section \<open>Load\<close>

lemma strip_Nil: "strip [] = []"
  by (simp add: strip_def)

lemma blank_fields: "strip line = [] \<Longrightarrow> fields line = [[]]"
  unfolding fields_def by (simp only: split_on.simps list.map strip_Nil)

lemma decode_blank: "strip line = [] \<Longrightarrow> decode_line pf line = None"
  by (simp add: decode_line_def blank_fields)

lemma five_fields:
  "length ps = 5 \<Longrightarrow> ps = [ps ! 0, ps ! 1, ps ! 2, ps ! 3, ps ! 4]"
  by (auto simp: length_Suc_conv numeral_eq_Suc)

lemma decode_line_five:
  assumes "length (fields line) = 5"
  shows "decode_line pf line =
     (case pf (fields line ! 3) of
        None \<Rightarrow> None
      | Some c \<Rightarrow>
          (case py_int (fields line ! 4) of
             None \<Rightarrow> None
           | Some q \<Rightarrow>
               Some \<lparr>country = fields line ! 0, code = fields line ! 1, product = fields line ! 2,
                     cost = c, quantity = q\<rparr>))"
proof -
  from five_fields [OF assms] obtain a b c d e where f: "fields line = [a, b, c, d, e]"
    by metis
  show ?thesis by (simp add: decode_line_def f split: option.splits)
qed

lemma decode_line_not_five: "length (fields line) \<noteq> 5 \<Longrightarrow> decode_line pf line = None"
  by (auto simp: decode_line_def split: list.splits)

lemma load_loop_eq:
  "load_loop pf n ls w =
     w\<lparr>shoes_list := shoes_list w @ records_of pf ls,
       stdout := stdout w @ diags_of pf n ls\<rparr>"
proof (induction ls arbitrary: n w)
  case Nil
  then show ?case by (simp add: records_of_def)
next
  case (Cons l ls)
  have rc: "records_of pf (l # ls) =
      (case decode_line pf l of None \<Rightarrow> [] | Some r \<Rightarrow> [r]) @ records_of pf ls"
    by (simp add: records_of_def split: option.splits)
  show ?case
  proof (cases "strip l = []")
    case True
    then show ?thesis
      by (simp add: Cons.IH rc decode_blank line_diag_def)
  next
    case False
    show ?thesis
    proof (cases "length (fields l) = 5")
      case n5: False
      with False show ?thesis
        by (simp add: Cons.IH rc decode_line_not_five line_diag_def
            fields_def [symmetric] print_def Let_def)
    next
      case True
      note d = decode_line_five [OF True, of pf]
      from False True show ?thesis
        by (simp add: Cons.IH rc d line_diag_def
            fields_def [symmetric] print_def Let_def split: option.splits)
    qed
  qed
qed


lemma readlines_Nil: "(readlines c = []) = (c = [])"
  by (cases c) (auto split: list.splits)

lemma read_shoes_data_text:
  assumes "fstate (disk w) = Text c" "readlines c = header # rest"
  shows "read_shoes_data pf w =
           Returned ()
             (w\<lparr>shoes_list := records_of pf rest,
                stdout := stdout w @ diags_of pf 2 rest @ [Loaded (length (records_of pf rest))]\<rparr>)"
  using assms
  by (simp add: read_shoes_data_def load_try_def read_file_def load_loop_eq print_def Let_def)

text \<open>
  Claim C6. When the file holds a text of at least one line, \<open>read_shoes_data\<close> returns
  and never looks at the first line. The store afterwards holds the decoded records of the
  remaining lines that decode, in the order of the file, so its length is the number of
  such lines; a blank line yields nothing, a line whose field count is not five or whose
  cost or quantity does not parse yields its numbered diagnostic and the load goes on; the
  count of loaded records is printed last.
\<close>

theorem read_shoes_data_valid_lines:
  "fstate (disk w) = Text c \<and> readlines c = header # rest \<longrightarrow>
     read_shoes_data pf w =
       Returned ()
         (w\<lparr>shoes_list := map (the \<circ> decode_line pf) (filter (\<lambda>l. decode_line pf l \<noteq> None) rest),
            stdout := stdout w @ diags_of pf 2 rest
              @ [Loaded (length (filter (\<lambda>l. decode_line pf l \<noteq> None) rest))]\<rparr>)"
proof
  assume a: "fstate (disk w) = Text c \<and> readlines c = header # rest"
  then have "read_shoes_data pf w =
           Returned ()
             (w\<lparr>shoes_list := records_of pf rest,
                stdout := stdout w @ diags_of pf 2 rest @ [Loaded (length (records_of pf rest))]\<rparr>)"
    by (intro read_shoes_data_text) blast+
  then show "read_shoes_data pf w =
       Returned ()
         (w\<lparr>shoes_list := map (the \<circ> decode_line pf) (filter (\<lambda>l. decode_line pf l \<noteq> None) rest),
            stdout := stdout w @ diags_of pf 2 rest
              @ [Loaded (length (filter (\<lambda>l. decode_line pf l \<noteq> None) rest))]\<rparr>)"
    by (simp add: records_of_def)
qed

lemma load_text_lines:
  "readlines load_text =
     ''USA,SH000,Old,1,1\<newline>'' #
     [''USA , SH001,AirMax,120, 3\<newline>'', ''\<newline>'', '' , \<newline>'', ''bad line\<newline>'',
      ''USA,SH002,Runner,80,x\<newline>'', ''UK,SH002,Trail,95,-3'']"
  by (simp add: load_text_def nl_def)

theorem read_shoes_data_valid_lines_witness:
  "fstate (disk load_world) = Text load_text \<and>
   readlines load_text =
     ''USA,SH000,Old,1,1\<newline>'' #
     [''USA , SH001,AirMax,120, 3\<newline>'', ''\<newline>'', '' , \<newline>'', ''bad line\<newline>'',
      ''USA,SH002,Runner,80,x\<newline>'', ''UK,SH002,Trail,95,-3''] \<and>
   read_shoes_data whole_float load_world =
     Returned ()
       (load_world\<lparr>shoes_list :=
           [\<lparr>country = ''USA'', code = ''SH001'', product = ''AirMax'', cost = 120, quantity = 3\<rparr>,
            \<lparr>country = ''UK'', code = ''SH002'', product = ''Trail'', cost = 95, quantity = - 3\<rparr>],
          stdout := [SkipInvalidLine 4 '','', SkipInvalidLine 5 ''bad line'',
                     SkipBadNumber 6 ''USA,SH002,Runner,80,x'', Loaded 2]\<rparr>)"
proof -
  have h: "fstate (disk load_world) = Text load_text \<and>
     readlines load_text =
     ''USA,SH000,Old,1,1\<newline>'' #
     [''USA , SH001,AirMax,120, 3\<newline>'', ''\<newline>'', '' , \<newline>'', ''bad line\<newline>'',
      ''USA,SH002,Runner,80,x\<newline>'', ''UK,SH002,Trail,95,-3'']"
    by (simp add: load_world_def load_text_lines)
  have d: "decode_line whole_float ''USA , SH001,AirMax,120, 3\<newline>'' =
        Some \<lparr>country = ''USA'', code = ''SH001'', product = ''AirMax'', cost = 120, quantity = 3\<rparr>"
    "decode_line whole_float ''\<newline>'' = None"
    "decode_line whole_float '' , \<newline>'' = None"
    "decode_line whole_float ''bad line\<newline>'' = None"
    "decode_line whole_float ''USA,SH002,Runner,80,x\<newline>'' = None"
    "decode_line whole_float ''UK,SH002,Trail,95,-3'' =
        Some \<lparr>country = ''UK'', code = ''SH002'', product = ''Trail'', cost = 95, quantity = - 3\<rparr>"
    by (simp_all add: decode_line_def fields_def strip_def is_space_def comma_def
        whole_float_def py_int_def is_digit_def digit_val_def)
  have g: "\<And>n. line_diag whole_float n ''USA , SH001,AirMax,120, 3\<newline>'' = []"
    "\<And>n. line_diag whole_float n ''\<newline>'' = []"
    "\<And>n. line_diag whole_float n '' , \<newline>'' = [SkipInvalidLine n '','']"
    "\<And>n. line_diag whole_float n ''bad line\<newline>'' = [SkipInvalidLine n ''bad line'']"
    "\<And>n. line_diag whole_float n ''USA,SH002,Runner,80,x\<newline>'' =
        [SkipBadNumber n ''USA,SH002,Runner,80,x'']"
    "\<And>n. line_diag whole_float n ''UK,SH002,Trail,95,-3'' = []"
    by (simp_all add: line_diag_def d) (simp_all add: fields_def strip_def is_space_def comma_def)
  from read_shoes_data_valid_lines [of load_world load_text "''USA,SH000,Old,1,1\<newline>''"
      "[''USA , SH001,AirMax,120, 3\<newline>'', ''\<newline>'', '' , \<newline>'', ''bad line\<newline>'',
      ''USA,SH002,Runner,80,x\<newline>'', ''UK,SH002,Trail,95,-3'']" whole_float] h
  have "read_shoes_data whole_float load_world =
     Returned ()
       (load_world\<lparr>shoes_list :=
           [\<lparr>country = ''USA'', code = ''SH001'', product = ''AirMax'', cost = 120, quantity = 3\<rparr>,
            \<lparr>country = ''UK'', code = ''SH002'', product = ''Trail'', cost = 95, quantity = - 3\<rparr>],
          stdout := [SkipInvalidLine 4 '','', SkipInvalidLine 5 ''bad line'',
                     SkipBadNumber 6 ''USA,SH002,Runner,80,x'', Loaded 2]\<rparr>)"
    by (simp add: d g load_world_def eval_nat_numeral)
  with h show ?thesis by blast
qed

text \<open>
  Claim C5. \<open>read_shoes_data\<close> forgets the store it was called with, whatever it held, and
  always returns. When the file is missing, may not be read, fails in any other way, or has
  no line (which is the empty text), it prints the matching diagnostic and the store is
  empty afterwards.
\<close>

theorem read_shoes_data_clears_store:
  "read_shoes_data pf (w\<lparr>shoes_list := xs\<rparr>) = read_shoes_data pf (w\<lparr>shoes_list := []\<rparr>) \<and>
   (\<exists>w'. read_shoes_data pf w = Returned () w') \<and>
   (fstate (disk w) = Missing \<longrightarrow>
      read_shoes_data pf w = Returned () (w\<lparr>shoes_list := [], stdout := stdout w @ [ReadNotFound]\<rparr>)) \<and>
   (fstate (disk w) = Denied \<longrightarrow>
      read_shoes_data pf w = Returned () (w\<lparr>shoes_list := [], stdout := stdout w @ [ReadDenied]\<rparr>)) \<and>
   (fstate (disk w) = Broken \<longrightarrow>
      read_shoes_data pf w =
        Returned () (w\<lparr>shoes_list := [], stdout := stdout w @ [ReadUnexpected]\<rparr>)) \<and>
   (fstate (disk w) = Text c \<and> readlines c = [] \<longrightarrow>
      c = [] \<and>
      read_shoes_data pf w = Returned () (w\<lparr>shoes_list := [], stdout := stdout w @ [FileEmpty]\<rparr>))"
proof (intro conjI impI)
  show "read_shoes_data pf (w\<lparr>shoes_list := xs\<rparr>) = read_shoes_data pf (w\<lparr>shoes_list := []\<rparr>)"
    by (simp add: read_shoes_data_def)
  show "\<exists>w'. read_shoes_data pf w = Returned () w'"
    by (simp add: read_shoes_data_def Let_def split: sum.splits io_error.splits)
  show "read_shoes_data pf w = Returned () (w\<lparr>shoes_list := [], stdout := stdout w @ [ReadNotFound]\<rparr>)"
    if "fstate (disk w) = Missing"
    using that by (simp add: read_shoes_data_def load_try_def read_file_def print_def)
  show "read_shoes_data pf w = Returned () (w\<lparr>shoes_list := [], stdout := stdout w @ [ReadDenied]\<rparr>)"
    if "fstate (disk w) = Denied"
    using that by (simp add: read_shoes_data_def load_try_def read_file_def print_def)
  show "read_shoes_data pf w = Returned () (w\<lparr>shoes_list := [], stdout := stdout w @ [ReadUnexpected]\<rparr>)"
    if "fstate (disk w) = Broken"
    using that by (simp add: read_shoes_data_def load_try_def read_file_def print_def)
  show "c = []" if "fstate (disk w) = Text c \<and> readlines c = []"
    using that by (simp add: readlines_Nil)
  show "read_shoes_data pf w = Returned () (w\<lparr>shoes_list := [], stdout := stdout w @ [FileEmpty]\<rparr>)"
    if "fstate (disk w) = Text c \<and> readlines c = []"
    using that by (simp add: read_shoes_data_def load_try_def read_file_def print_def)
qed

theorem read_shoes_data_clears_store_witness:
  "fstate (disk no_file_world) = Missing \<and> shoes_list no_file_world = three_shoes \<and>
   read_shoes_data whole_float no_file_world =
     Returned () (no_file_world\<lparr>shoes_list := [], stdout := stdout no_file_world @ [ReadNotFound]\<rparr>)"
proof -
  have h: "fstate (disk no_file_world) = Missing \<and> shoes_list no_file_world = three_shoes"
    by (simp add: no_file_world_def)
  with read_shoes_data_clears_store [where pf = whole_float and w = no_file_world]
  show ?thesis by blast
qed

section \<open>The rewrite, line by line\<close>

lemma strip_eq_Nil: "(strip s = []) = (\<forall>c\<in>set s. is_space c)"
proof
  assume "strip s = []"
  then have all: "\<forall>x\<in>set (dropWhile is_space s). is_space x"
    by (simp add: strip_def)
  have "dropWhile is_space s = []"
  proof (cases "dropWhile is_space s")
    case Nil
    then show ?thesis .
  next
    case (Cons x xs)
    then have "\<not> is_space x" using hd_dropWhile [of is_space s] by simp
    with Cons all show ?thesis by simp
  qed
  then show "\<forall>c\<in>set s. is_space c" by simp
next
  assume "\<forall>c\<in>set s. is_space c"
  then have e: "dropWhile is_space s = []" by simp
  show "strip s = []" by (simp only: strip_def e rev.simps dropWhile.simps)
qed

lemma is_space_nl: "is_space nl"
  by (simp add: is_space_def nl_def)

lemma not_space_comma: "\<not> is_space comma"
  by (simp add: is_space_def comma_def)

lemma set_dropWhile_eq: "set xs \<subseteq> insert a (set (dropWhile (\<lambda>c. c = a) xs))"
  by (induction xs) auto

lemma set_rstrip_nl: "set s \<subseteq> insert nl (set (rstrip_nl s))"
  using set_dropWhile_eq [of "rev s" nl] by (simp add: rstrip_nl_def)

lemma set_rstrip_nl_sub: "set (rstrip_nl s) \<subseteq> set s"
  using set_dropWhileD [of _ "\<lambda>c. c = nl" "rev s"] by (auto simp: rstrip_nl_def)

lemma blank_rstrip: "(strip (rstrip_nl line) = []) = blank line"
  using set_rstrip_nl [of line] set_rstrip_nl_sub [of line] is_space_nl
  by (auto simp: strip_eq_Nil blank_def)

lemma split_on_no_sep: "d \<notin> set s \<Longrightarrow> split_on d s = [s]"
  by (induction s) auto

lemma blank_one_field: "blank line \<Longrightarrow> length (line_fields line) = 1"
proof -
  assume "blank line"
  then have "\<forall>c\<in>set (rstrip_nl line). is_space c"
    using set_rstrip_nl_sub [of line] by (auto simp: blank_def)
  with not_space_comma have "comma \<notin> set (rstrip_nl line)" by blast
  then show ?thesis by (simp add: line_fields_def split_on_no_sep)
qed

lemma rewrite_line_eq: "rewrite_line t q line = (rewritten t q line, has_code t line)"
proof (cases "blank line")
  case True
  from blank_one_field [OF this] have "\<not> has_code t line" by (simp add: has_code_def)
  with True show ?thesis
    by (simp add: rewrite_line_def rewritten_def blank_rstrip Let_def)
next
  case False
  then show ?thesis
    by (auto simp: rewrite_line_def rewritten_def blank_rstrip Let_def has_code_def
        line_fields_def [symmetric])
qed

lemma rewrite_loop_eq:
  "rewrite_loop t q ls acc upd =
     (acc @ map (rewritten t q) ls, upd \<or> (\<exists>l\<in>set ls. has_code t l))"
  by (induction ls arbitrary: acc upd) (auto simp: rewrite_line_eq)

lemma update_try_text:
  assumes "fstate d = Text c" "readlines c = header # rest"
  shows "update_try t q d =
     (if \<exists>l\<in>set rest. has_code t l
      then (case wperm d of
              Writable \<Rightarrow> Inr (True, d\<lparr>fstate := Text (concat (header # map (rewritten t q) rest))\<rparr>)
            | WriteDenied \<Rightarrow> Inl PermissionError
            | WriteBroken \<Rightarrow> Inl OtherException)
      else Inr (False, d))"
  using assms
  by (simp add: update_try_def read_file_def rewrite_loop_eq write_lines_def
      split: write_perm.splits)

lemma update_no_match:
  assumes "fstate (disk w) = Text c" "\<forall>l\<in>set (tl (readlines c)). \<not> has_code t l"
  shows "update_quantity_in_file t q w = (False, w)"
proof (cases "readlines c")
  case Nil
  with assms(1) show ?thesis
    by (simp add: update_quantity_in_file_def update_try_def read_file_def)
next
  case (Cons header rest)
  with assms(2) have "\<not> (\<exists>l\<in>set rest. has_code t l)" by simp
  with update_try_text [OF assms(1) Cons, of t q] show ?thesis
    by (simp add: update_quantity_in_file_def)
qed


lemma readlines_ok: "lines_ok (readlines c)"
proof (induction c)
  case Nil
  then show ?case by simp
next
  case (Cons x cs)
  show ?case
  proof (cases "x = nl")
    case True
    with Cons show ?thesis by simp
  next
    case False
    show ?thesis
    proof (cases "readlines cs")
      case Nil
      with False show ?thesis by simp
    next
      case (Cons l ls)
      with Cons.IH False show ?thesis by auto
    qed
  qed
qed

lemma readlines_line_nl: "nl \<notin> set a \<Longrightarrow> readlines (a @ nl # cs) = (a @ [nl]) # readlines cs"
  by (induction a) auto

lemma readlines_line_last: "nl \<notin> set a \<Longrightarrow> a \<noteq> [] \<Longrightarrow> readlines a = [a]"
proof (induction a)
  case Nil
  then show ?case by simp
next
  case (Cons x a)
  then show ?case by (cases "a = []") auto
qed

lemma no_nl_butlast: "l \<noteq> [] \<Longrightarrow> nl \<notin> set (butlast l) \<Longrightarrow> last l \<noteq> nl \<Longrightarrow> nl \<notin> set l"
proof -
  assume "l \<noteq> []" and n: "nl \<notin> set (butlast l)" and e: "last l \<noteq> nl"
  then have "l = butlast l @ [last l]" by simp
  then have "set l = set (butlast l) \<union> {last l}"
    by (metis list.set(1,2) set_append)
  with n e show ?thesis by auto
qed

lemma readlines_concat: "lines_ok ls \<Longrightarrow> readlines (concat ls) = ls"
proof (induction ls)
  case Nil
  then show ?case by simp
next
  case (Cons l ls)
  then have l: "l \<noteq> []" "nl \<notin> set (butlast l)" "ls = [] \<or> last l = nl" and ok: "lines_ok ls"
    by simp_all
  have split: "l = butlast l @ [last l]" using l(1) by simp
  show ?case
  proof (cases "last l = nl")
    case True
    define a where "a = butlast l"
    have la: "l = a @ [nl]" using split True by (simp add: a_def)
    have na: "nl \<notin> set a" using l(2) by (simp add: a_def)
    have "readlines (concat (l # ls)) = readlines (a @ nl # concat ls)"
      by (simp add: la)
    also have "\<dots> = (a @ [nl]) # readlines (concat ls)"
      by (rule readlines_line_nl [OF na])
    finally show ?thesis using Cons.IH [OF ok] la by simp
  next
    case False
    with l(3) have e: "ls = []" by simp
    from no_nl_butlast [OF l(1,2) False] have "nl \<notin> set l" .
    from readlines_line_last [OF this l(1)] e show ?thesis by simp
  qed
qed

lemma concat_readlines: "concat (readlines c) = c"
  by (induction c) (auto split: list.splits)


lemma set_strip: "set (strip s) \<subseteq> set s"
proof -
  have "set (dropWhile is_space (rev (dropWhile is_space s))) \<subseteq> set (rev (dropWhile is_space s))"
    by (auto dest: set_dropWhileD)
  also have "\<dots> \<subseteq> set s" by (auto dest: set_dropWhileD)
  finally show ?thesis by (simp add: strip_def)
qed

lemma split_on_nonempty: "split_on d s \<noteq> []"
  by (induction s) (auto split: list.splits)

lemma split_piece_no_sep: "p \<in> set (split_on d s) \<Longrightarrow> d \<notin> set p"
proof (induction s arbitrary: p)
  case Nil
  then show ?case by simp
next
  case (Cons c cs)
  show ?case
  proof (cases "c = d")
    case True
    with Cons show ?thesis by auto
  next
    case False
    obtain f fs where f: "split_on d cs = f # fs"
      using split_on_nonempty [of d cs] by (cases "split_on d cs") auto
    with Cons False show ?thesis by auto
  qed
qed

lemma split_piece_sub: "p \<in> set (split_on d s) \<Longrightarrow> set p \<subseteq> set s"
proof (induction s arbitrary: p)
  case Nil
  then show ?case by simp
next
  case (Cons c cs)
  obtain f fs where f: "split_on d cs = f # fs"
    using split_on_nonempty [of d cs] by (cases "split_on d cs") auto
  show ?case
  proof (cases "c = d")
    case True
    with Cons.prems have "p = [] \<or> p \<in> set (split_on d cs)" by simp
    then show ?thesis
    proof
      assume "p = []"
      then show ?thesis by simp
    next
      assume "p \<in> set (split_on d cs)"
      from Cons.IH [OF this] show ?thesis by auto
    qed
  next
    case False
    with Cons.prems f have "p = c # f \<or> p \<in> set fs" by simp
    then show ?thesis
    proof
      assume p: "p = c # f"
      have "f \<in> set (split_on d cs)" by (simp add: f)
      from Cons.IH [OF this] p show ?thesis by auto
    next
      assume "p \<in> set fs"
      then have "p \<in> set (split_on d cs)" by (simp add: f)
      from Cons.IH [OF this] show ?thesis by auto
    qed
  qed
qed

lemma split_on_append: "d \<notin> set a \<Longrightarrow> split_on d (a @ d # b) = a # split_on d b"
  by (induction a) auto

lemma strip_id: "s \<noteq> [] \<Longrightarrow> \<not> is_space (hd s) \<Longrightarrow> \<not> is_space (last s) \<Longrightarrow> strip s = s"
proof -
  assume s: "s \<noteq> []" and h: "\<not> is_space (hd s)" and l: "\<not> is_space (last s)"
  from s h have 1: "dropWhile is_space s = s" by (cases s) auto
  from s l have "rev s \<noteq> []" "\<not> is_space (hd (rev s))" by (simp_all add: hd_rev)
  then have 2: "dropWhile is_space (rev s) = rev s" by (cases "rev s") auto
  show ?thesis by (simp only: strip_def 1 2 rev_rev_ident)
qed

lemma strip_ends:
  assumes "strip s \<noteq> []"
  shows "\<not> is_space (hd (strip s)) \<and> \<not> is_space (last (strip s))"
proof -
  define z where "z = dropWhile is_space s"
  define y where "y = dropWhile is_space (rev z)"
  have st: "strip s = rev y" by (simp add: strip_def y_def z_def)
  with assms have yne: "y \<noteq> []" by simp
  then have "\<not> is_space (hd y)" unfolding y_def using hd_dropWhile by blast
  then have last: "\<not> is_space (last (strip s))" using yne by (simp add: st last_rev)
  have "y = drop (length (takeWhile is_space (rev z))) (rev z)"
    by (simp add: y_def dropWhile_eq_drop)
  then have "rev y = take (length z - length (takeWhile is_space (rev z))) z"
    by (simp add: rev_drop)
  then obtain n where n: "rev y = take n z" by blast
  have zn: "z \<noteq> []" "n \<noteq> 0"
  proof -
    show "z \<noteq> []"
    proof
      assume "z = []"
      with n have "rev y = []" by simp
      with yne show False by simp
    qed
    show "n \<noteq> 0"
    proof
      assume "n = 0"
      with n have "rev y = []" by simp
      with yne show False by simp
    qed
  qed
  then obtain a z' m where "z = a # z'" "n = Suc m"
    by (cases z; cases n) auto
  then have "hd (rev y) = hd z" using n by simp
  moreover have "\<not> is_space (hd z)" using hd_dropWhile [of is_space s] zn(1) by (simp add: z_def)
  ultimately show ?thesis using last by (simp add: st)
qed

lemma strip_idem: "strip (strip s) = strip s"
proof (cases "strip s = []")
  case True
  have "strip [] = []" by (simp add: strip_def)
  then show ?thesis by (simp only: True)
next
  case False
  from strip_ends [OF False] False show ?thesis by (intro strip_id) simp_all
qed

lemma of_char_digit: "n < 10 \<Longrightarrow> (of_char (digit_char n) :: nat) = 48 + n"
proof -
  assume "n < 10"
  then have "n \<in> {9, 8, 7, 6, 5, 4, 3, 2, 1, 0}"
    by simp arith
  then show ?thesis by (auto simp: digit_char_def)
qed

lemma nat_digits_codes:
  "c \<in> set (nat_digits n) \<Longrightarrow> 48 \<le> (of_char c :: nat) \<and> (of_char c :: nat) \<le> 57"
proof (induction n rule: nat_digits.induct)
  case (1 n)
  show ?case
  proof (cases "n < 10")
    case True
    then have "nat_digits n = [digit_char n]" by (subst nat_digits.simps) simp
    with "1.prems" have "c = digit_char n" by simp
    with of_char_digit [OF True] True show ?thesis by simp
  next
    case False
    then have "nat_digits n = nat_digits (n div 10) @ [digit_char (n mod 10)]"
      by (subst nat_digits.simps) simp
    with "1.prems" have "c \<in> set (nat_digits (n div 10)) \<or> c = digit_char (n mod 10)" by auto
    then show ?thesis
    proof
      assume "c \<in> set (nat_digits (n div 10))"
      with "1.IH" [OF False] show ?thesis .
    next
      assume c: "c = digit_char (n mod 10)"
      have m: "n mod 10 < 10" by simp
      from of_char_digit [OF m] m show ?thesis unfolding c by linarith
    qed
  qed
qed

lemma nat_digits_nonempty: "nat_digits n \<noteq> []"
  by (subst nat_digits.simps) simp

lemma str_int_nonempty: "str_int q \<noteq> []"
  by (simp add: str_int_def nat_digits_nonempty)

lemma str_int_codes:
  "c \<in> set (str_int q) \<Longrightarrow>
     (of_char c :: nat) = 45 \<or> (48 \<le> (of_char c :: nat) \<and> (of_char c :: nat) \<le> 57)"
proof -
  assume "c \<in> set (str_int q)"
  then have "c = CHR ''-'' \<or> c \<in> set (nat_digits (nat (- q))) \<or> c \<in> set (nat_digits (nat q))"
    by (auto simp: str_int_def split: if_splits)
  then show ?thesis using nat_digits_codes by auto
qed

lemma plain_chars:
  assumes "c \<in> set (str_int q)"
  shows "\<not> is_space c" "c \<noteq> comma" "c \<noteq> nl"
proof -
  from str_int_codes [OF assms]
  have r: "(of_char c :: nat) = 45 \<or> (48 \<le> (of_char c :: nat) \<and> (of_char c :: nat) \<le> 57)" .
  then show "\<not> is_space c" by (auto simp: is_space_def)
  have "(of_char comma :: nat) = 44" "(of_char nl :: nat) = 10" by (simp_all add: comma_def nl_def)
  with r show "c \<noteq> comma" "c \<noteq> nl" by auto
qed

lemma strip_str_int: "strip (str_int q) = str_int q"
proof (rule strip_id [OF str_int_nonempty])
  have "hd (str_int q) \<in> set (str_int q)" using str_int_nonempty by simp
  then show "\<not> is_space (hd (str_int q))" by (rule plain_chars(1))
  have "last (str_int q) \<in> set (str_int q)" using str_int_nonempty by simp
  then show "\<not> is_space (last (str_int q))" by (rule plain_chars(1))
qed

lemma str_int_plain: "comma \<notin> set (str_int q) \<and> nl \<notin> set (str_int q)"
  using plain_chars(2,3) by blast

lemma dropWhile_hd_id: "xs \<noteq> [] \<Longrightarrow> \<not> P (hd xs) \<Longrightarrow> dropWhile P xs = xs"
  by (cases xs) auto

lemma rstrip_nl_snoc: "x \<noteq> [] \<Longrightarrow> last x \<noteq> nl \<Longrightarrow> rstrip_nl (x @ [nl]) = x"
proof -
  assume x: "x \<noteq> []" "last x \<noteq> nl"
  then have "hd (rev x) \<noteq> nl" by (simp add: hd_rev)
  with x(1) have "dropWhile (\<lambda>c. c = nl) (rev x) = rev x"
    by (intro dropWhile_hd_id) simp_all
  then show ?thesis by (simp add: rstrip_nl_def)
qed

lemma rstrip_nl_no_nl: "nl \<notin> set (butlast l) \<Longrightarrow> nl \<notin> set (rstrip_nl l)"
proof (cases "l = []")
  case True
  then show ?thesis by (simp add: rstrip_nl_def)
next
  case False
  assume n: "nl \<notin> set (butlast l)"
  show ?thesis
  proof (cases "last l = nl")
    case True
    have "rev l = rev (butlast l @ [last l])" using False by simp
    then have e: "rev l = nl # rev (butlast l)" using True by simp
    have "rstrip_nl l = rev (dropWhile (\<lambda>c. c = nl) (rev (butlast l)))"
      unfolding rstrip_nl_def e by simp
    then have "set (rstrip_nl l) \<subseteq> set (butlast l)"
      by (auto dest: set_dropWhileD)
    with n show ?thesis by blast
  next
    case l: False
    from no_nl_butlast [OF False n l] set_rstrip_nl_sub [of l] show ?thesis by blast
  qed
qed

lemma format_line_body: "format_line f0 f1 f2 f3 q = line_body f0 f1 f2 f3 q @ [nl]"
  by (simp add: format_line_def line_body_def)

lemma line_body_last: "line_body f0 f1 f2 f3 q \<noteq> [] \<and> last (line_body f0 f1 f2 f3 q) \<noteq> nl"
proof -
  have "last (line_body f0 f1 f2 f3 q) = last (str_int q)"
    using str_int_nonempty [of q] by (simp add: line_body_def)
  moreover have "last (str_int q) \<in> set (str_int q)" using str_int_nonempty [of q] by simp
  ultimately show ?thesis using str_int_plain [of q] by (auto simp: line_body_def)
qed

lemma line_body_split:
  assumes "comma \<notin> set f0" "comma \<notin> set f1" "comma \<notin> set f2" "comma \<notin> set f3"
  shows "split_on comma (line_body f0 f1 f2 f3 q) = [f0, f1, f2, f3, str_int q]"
  using assms str_int_plain [of q]
  by (simp add: line_body_def split_on_append split_on_no_sep)

lemma line_body_no_nl:
  assumes "nl \<notin> set f0" "nl \<notin> set f1" "nl \<notin> set f2" "nl \<notin> set f3"
  shows "nl \<notin> set (line_body f0 f1 f2 f3 q)"
proof -
  have "comma \<noteq> nl" by (simp add: comma_def nl_def)
  with assms str_int_plain [of q] show ?thesis by (auto simp: line_body_def)
qed

lemma fields_of_format:
  assumes c: "comma \<notin> set f0" "comma \<notin> set f1" "comma \<notin> set f2" "comma \<notin> set f3"
    and s: "strip f0 = f0" "strip f1 = f1" "strip f2 = f2" "strip f3 = f3"
  shows "line_fields (format_line f0 f1 f2 f3 q) = [f0, f1, f2, f3, str_int q]"
proof -
  have r: "rstrip_nl (line_body f0 f1 f2 f3 q @ [nl]) = line_body f0 f1 f2 f3 q"
    using line_body_last [of f0 f1 f2 f3 q] by (intro rstrip_nl_snoc) simp_all
  have "line_fields (format_line f0 f1 f2 f3 q) =
      map strip (split_on comma (line_body f0 f1 f2 f3 q))"
    by (simp only: line_fields_def format_line_body r)
  also have "\<dots> = [f0, f1, f2, f3, str_int q]"
    by (simp only: line_body_split [OF c] list.map s strip_str_int)
  finally show ?thesis .
qed

lemma line_fields_props:
  assumes "f \<in> set (line_fields line)"
  shows "comma \<notin> set f" "strip f = f" "set f \<subseteq> set (rstrip_nl line)"
proof -
  from assms obtain p where p: "p \<in> set (split_on comma (rstrip_nl line))" "f = strip p"
    by (auto simp: line_fields_def)
  from split_piece_no_sep [OF p(1)] set_strip [of p] show "comma \<notin> set f" by (auto simp: p(2))
  show "strip f = f" by (simp add: p(2) strip_idem)
  from split_piece_sub [OF p(1)] set_strip [of p] show "set f \<subseteq> set (rstrip_nl line)"
    by (auto simp: p(2))
qed

lemma five_members:
  assumes "length fs = 5"
  shows "fs ! 0 \<in> set fs" "fs ! 1 \<in> set fs" "fs ! 2 \<in> set fs" "fs ! 3 \<in> set fs"
  using assms by (simp_all del: One_nat_def)

lemma five_update:
  assumes "length fs = 5"
  shows "fs[4 := x] = [fs ! 0, fs ! 1, fs ! 2, fs ! 3, x]"
proof -
  from five_fields [OF assms] obtain a b c d e where "fs = [a, b, c, d, e]" by metis
  then show ?thesis by (simp add: numeral_eq_Suc)
qed


lemma rewritten_fields:
  assumes "has_code t line"
  shows "line_fields (rewritten t q line) = (line_fields line)[4 := str_int q]"
proof -
  define fs where "fs = line_fields line"
  from assms have len: "length fs = 5" and t: "fs ! 1 = t" by (simp_all add: has_code_def fs_def)
  note m = five_members [OF len]
  have p: "\<And>f. f \<in> set fs \<Longrightarrow> comma \<notin> set f \<and> strip f = f"
    using line_fields_props(1,2) [of _ line] by (simp add: fs_def)
  have "line_fields (format_line (fs ! 0) (fs ! 1) (fs ! 2) (fs ! 3) q) =
      [fs ! 0, fs ! 1, fs ! 2, fs ! 3, str_int q]"
    using p [OF m(1)] p [OF m(2)] p [OF m(3)] p [OF m(4)] by (intro fields_of_format) simp_all
  also have "\<dots> = fs[4 := str_int q]" by (simp only: five_update [OF len])
  finally have "line_fields (format_line (fs ! 0) t (fs ! 2) (fs ! 3) q) = fs[4 := str_int q]"
    by (simp only: t)
  then show ?thesis using assms by (simp add: rewritten_def fs_def)
qed

lemma rewritten_ok:
  assumes "l \<noteq> []" "nl \<notin> set (butlast l)"
  shows "rewritten t q l \<noteq> []" "nl \<notin> set (butlast (rewritten t q l))"
    "last l = nl \<or> \<not> blank l \<Longrightarrow> last (rewritten t q l) = nl"
proof -
  define fs where "fs = line_fields l"
  have nn: "nl \<notin> set (rstrip_nl l)" by (rule rstrip_nl_no_nl [OF assms(2)])
  have fnl: "\<And>f. f \<in> set fs \<Longrightarrow> nl \<notin> set f"
    using line_fields_props(3) [of _ l] nn by (auto simp: fs_def)
  define new where "new = format_line (fs ! 0) t (fs ! 2) (fs ! 3) q"
  have fmt: "new \<noteq> [] \<and> nl \<notin> set (butlast new) \<and> last new = nl" if "has_code t l"
  proof -
    from that have len: "length fs = 5" and t: "fs ! 1 = t" by (simp_all add: has_code_def fs_def)
    note m = five_members [OF len]
    have "nl \<notin> set (line_body (fs ! 0) (fs ! 1) (fs ! 2) (fs ! 3) q)"
      using fnl [OF m(1)] fnl [OF m(2)] fnl [OF m(3)] fnl [OF m(4)] by (intro line_body_no_nl)
    then show ?thesis unfolding new_def format_line_body t [symmetric] by simp
  qed
  have wn: "with_newline l \<noteq> [] \<and> nl \<notin> set (butlast (with_newline l)) \<and> last (with_newline l) = nl"
  proof (cases "endswith_nl l")
    case True
    with assms show ?thesis by (simp add: with_newline_def endswith_nl_def)
  next
    case False
    with assms(1) have "last l \<noteq> nl" by (simp add: endswith_nl_def)
    from no_nl_butlast [OF assms this] False show ?thesis by (simp add: with_newline_def)
  qed
  have r: "rewritten t q l = (if has_code t l then new else if blank l then l else with_newline l)"
    by (simp add: rewritten_def new_def fs_def)
  show "rewritten t q l \<noteq> []" using fmt wn assms(1) by (simp add: r)
  show "nl \<notin> set (butlast (rewritten t q l))" using fmt wn assms(2) by (simp add: r)
  show "last (rewritten t q l) = nl" if "last l = nl \<or> \<not> blank l"
    using that fmt wn by (auto simp: r)
qed

lemma rewritten_lines_ok: "lines_ok ls \<Longrightarrow> lines_ok (map (rewritten t q) ls)"
proof (induction ls)
  case Nil
  then show ?case by simp
next
  case (Cons l ls)
  then have l: "l \<noteq> []" "nl \<notin> set (butlast l)" "ls = [] \<or> last l = nl" "lines_ok ls"
    by simp_all
  note r = rewritten_ok [OF l(1,2), of t q]
  have "ls = [] \<or> last (rewritten t q l) = nl"
  proof (cases "ls = []")
    case True
    then show ?thesis by simp
  next
    case False
    with l(3) have "last l = nl" by simp
    with r(3) show ?thesis by simp
  qed
  with r(1,2) Cons.IH [OF l(4)] show ?case by simp
qed

lemma lines_ok_nth: "lines_ok ls \<Longrightarrow> Suc j < length ls \<Longrightarrow> endswith_nl (ls ! j)"
proof (induction ls arbitrary: j)
  case Nil
  then show ?case by simp
next
  case (Cons l ls)
  show ?case
  proof (cases j)
    case 0
    with Cons.prems show ?thesis by (auto simp: endswith_nl_def)
  next
    case (Suc m)
    with Cons.prems have "lines_ok ls" "Suc m < length ls" by simp_all
    from Cons.IH [OF this] Suc show ?thesis by simp
  qed
qed

lemma update_rewrites:
  assumes d: "fstate d = Text c" "wperm d = Writable"
    and ls: "readlines c = header # rest" and hit: "\<exists>l\<in>set rest. has_code t l"
    and c': "c' = concat (header # map (rewritten t q) rest)"
  shows "update_try t q d = Inr (True, d\<lparr>fstate := Text c'\<rparr>)"
    "readlines c' = header # map (rewritten t q) rest"
proof -
  from update_try_text [OF d(1) ls, of t q] hit d(2)
  show "update_try t q d = Inr (True, d\<lparr>fstate := Text c'\<rparr>)" by (simp add: c')
  have ok: "lines_ok (header # rest)" using readlines_ok [of c] by (simp add: ls)
  then have h: "header \<noteq> []" "nl \<notin> set (butlast header)" "rest = [] \<or> last header = nl"
    and okr: "lines_ok rest" by simp_all
  from rewritten_lines_ok [OF okr] h have "lines_ok (header # map (rewritten t q) rest)"
    by simp
  from readlines_concat [OF this] show "readlines c' = header # map (rewritten t q) rest"
    by (simp only: c')
qed

lemma cr_not_nl: "cr \<noteq> nl"
  by (simp add: cr_def nl_def)

lemma universal_plain: "c \<noteq> cr \<Longrightarrow> universal (c # xs) = c # universal xs"
  by (cases xs) simp_all

lemma universal_no_cr: "cr \<notin> set (universal s)"
  by (induction s rule: universal.induct) (auto simp: cr_not_nl)

lemma universal_id: "cr \<notin> set s \<Longrightarrow> universal s = s"
proof (induction s)
  case Nil
  then show ?case by simp
next
  case (Cons c s)
  then have "c \<noteq> cr" "universal s = s" by auto
  then show ?case by (simp add: universal_plain)
qed

lemma on_disk_posix: "on_disk Posix s = s"
  by (induction s) (simp_all add: on_disk_def linesep_def)

lemma on_disk_Cons:
  "on_disk p (c # s) = (if c = nl then linesep p else [c]) @ on_disk p s"
  by (simp add: on_disk_def)

lemma universal_on_disk: "cr \<notin> set s \<Longrightarrow> universal (on_disk p s) = s"
proof (induction s)
  case Nil
  then show ?case by (simp add: on_disk_def)
next
  case (Cons c s)
  then have c: "c \<noteq> cr" and ih: "universal (on_disk p s) = s" by auto
  show ?case
  proof (cases "c = nl")
    case True
    show ?thesis
    proof (cases p)
      case Posix
      with True ih show ?thesis
        using cr_not_nl by (simp add: on_disk_Cons linesep_def universal_plain)
    next
      case Windows
      with True ih show ?thesis by (simp add: on_disk_Cons linesep_def)
    qed
  next
    case False
    with c ih show ?thesis by (simp add: on_disk_Cons universal_plain)
  qed
qed

lemma str_int_no_cr: "cr \<notin> set (str_int q)"
proof
  assume "cr \<in> set (str_int q)"
  from str_int_codes [OF this] show False by (simp add: cr_def)
qed

lemma rewritten_no_cr:
  assumes "cr \<notin> set l"
  shows "cr \<notin> set (rewritten t q l)"
proof (cases "has_code t l")
  case True
  define fs where "fs = line_fields l"
  from True have len: "length fs = 5" and t: "fs ! 1 = t" by (simp_all add: has_code_def fs_def)
  note m = five_members [OF len]
  have f: "\<And>f. f \<in> set fs \<Longrightarrow> cr \<notin> set f"
    using line_fields_props(3) [of _ l] set_rstrip_nl_sub [of l] assms by (auto simp: fs_def)
  have "comma \<noteq> cr" by (simp add: comma_def cr_def)
  then have "cr \<notin> set (format_line (fs ! 0) (fs ! 1) (fs ! 2) (fs ! 3) q)"
    using f [OF m(1)] f [OF m(2)] f [OF m(3)] f [OF m(4)] str_int_no_cr [of q] cr_not_nl
    by (auto simp: format_line_def)
  then show ?thesis using True unfolding rewritten_def fs_def t [unfolded fs_def, symmetric]
    by simp
next
  case False
  with assms cr_not_nl show ?thesis by (auto simp: rewritten_def with_newline_def)
qed

lemma update_stored_rewrites:
  assumes ls: "readlines (universal raw) = header # rest" and hit: "\<exists>l\<in>set rest. has_code t l"
    and c': "c' = concat (header # map (rewritten t q) rest)"
  shows "update_stored p Writable t q raw = (True, on_disk p c')"
    "cr \<notin> set c'" "universal (on_disk p c') = c'"
proof -
  have "update_try t q \<lparr>fstate = Text (universal raw), wperm = Writable\<rparr> =
      Inr (True, \<lparr>fstate = Text (universal raw), wperm = Writable\<rparr>\<lparr>fstate := Text c'\<rparr>)"
    by (rule update_rewrites(1) [OF _ _ ls hit c']) simp_all
  then show "update_stored p Writable t q raw = (True, on_disk p c')"
    by (simp add: update_stored_def)
  have "set (concat (header # rest)) = set (universal raw)"
    using concat_readlines [of "universal raw"] by (simp only: ls)
  then have "\<forall>l\<in>set (header # rest). cr \<notin> set l"
    using universal_no_cr [of raw] by auto
  then show "cr \<notin> set c'" using rewritten_no_cr by (auto simp: c')
  then show "universal (on_disk p c') = c'" by (rule universal_on_disk)
qed

section \<open>Restock when the code is not in the file\<close>

lemma first_min_unique:
  fixes qs :: "int list"
  assumes "i < length qs" "\<forall>j<length qs. qs ! i \<le> qs ! j" "\<forall>j<i. qs ! i < qs ! j"
    and "i' < length qs" "\<forall>j<length qs. qs ! i' \<le> qs ! j" "\<forall>j<i'. qs ! i' < qs ! j"
  shows "i = i'"
proof (rule ccontr)
  assume "i \<noteq> i'"
  then consider "i < i'" | "i' < i" by linarith
  then show False
  proof cases
    case 1
    with assms(6) have "qs ! i' < qs ! i" by blast
    moreover from assms(2,4) have "qs ! i \<le> qs ! i'" by blast
    ultimately show False by simp
  next
    case 2
    with assms(3) have "qs ! i < qs ! i'" by blast
    moreover from assms(5,1) have "qs ! i' \<le> qs ! i" by blast
    ultimately show False by simp
  qed
qed

lemma min_index_is:
  assumes "i < length xs" "\<forall>j<length xs. quantity (xs ! i) \<le> quantity (xs ! j)"
    "\<forall>j<i. quantity (xs ! i) < quantity (xs ! j)"
  shows "min_index (map quantity xs) = Some i"
proof -
  let ?qs = "map quantity xs"
  from assms(1) have "?qs \<noteq> []" by auto
  from min_index_first_min [OF this] obtain m where m: "min_index ?qs = Some m"
    "m < length ?qs" "\<forall>j<length ?qs. ?qs ! m \<le> ?qs ! j" "\<forall>j<m. ?qs ! m < ?qs ! j"
    by blast
  have "i = m"
    by (rule first_min_unique [of i ?qs m]) (use assms m in auto)
  with m(1) show ?thesis by simp
qed

text \<open>
  Claim C3. Let the record at position \<open>i\<close> be the first minimum of the store, let the
  operator confirm and, after any rejected texts, give an increment \<open>k > 0\<close>, and let the
  file hold a text none of whose lines after the first is a data line with that record's
  code. Then \<open>re_stock\<close> returns with the disk exactly as it was, the warning that the
  file line could not be updated is printed, and the store keeps the quantity raised by
  \<open>k\<close>.
\<close>

theorem re_stock_code_not_in_file:
  "i < length (shoes_list w) \<and>
   (\<forall>j<length (shoes_list w). quantity (shoes_list w ! i) \<le> quantity (shoes_list w ! j)) \<and>
   (\<forall>j<i. quantity (shoes_list w ! i) < quantity (shoes_list w ! j)) \<and>
   stdin w = l # bads @ good # rest \<and> lower (strip l) = ''y'' \<and>
   (\<forall>b\<in>set bads. rejected b) \<and> py_int (strip good) = Some k \<and> 0 < k \<and>
   fstate (disk w) = Text c \<and>
   (\<forall>line\<in>set (tl (readlines c)). \<not> has_code (code (shoes_list w ! i)) line) \<longrightarrow>
     re_stock w =
       Returned ()
         (w\<lparr>shoes_list :=
              (shoes_list w)[i := (shoes_list w ! i)\<lparr>quantity := quantity (shoes_list w ! i) + k\<rparr>],
            stdin := rest,
            stdout := stdout w @ [LowestHeader, ShowShoe (shoes_list w ! i), Prompt ask_confirm]
              @ concat (map (\<lambda>b. [Prompt ask_units, refusal b]) bads)
              @ [Prompt ask_units, FileLineWarning, StockUpdated,
                 ShowShoe ((shoes_list w ! i)\<lparr>quantity := quantity (shoes_list w ! i) + k\<rparr>)]\<rparr>)"
proof
  let ?xs = "shoes_list w"
  assume a: "i < length ?xs \<and>
   (\<forall>j<length ?xs. quantity (?xs ! i) \<le> quantity (?xs ! j)) \<and>
   (\<forall>j<i. quantity (?xs ! i) < quantity (?xs ! j)) \<and>
   stdin w = l # bads @ good # rest \<and> lower (strip l) = ''y'' \<and>
   (\<forall>b\<in>set bads. rejected b) \<and> py_int (strip good) = Some k \<and> 0 < k \<and>
   fstate (disk w) = Text c \<and>
   (\<forall>line\<in>set (tl (readlines c)). \<not> has_code (code (?xs ! i)) line)"
  then have i: "min_index (map quantity ?xs) = Some i" by (intro min_index_is) blast+
  from a have ne: "?xs \<noteq> []" by auto
  define w4 where "w4 = w\<lparr>shoes_list := restocked ?xs i k, stdin := rest,
               stdout := stdout w @ [LowestHeader, ShowShoe (?xs ! i), Prompt ask_confirm]
                 @ concat (map (\<lambda>b. [Prompt ask_units, refusal b]) bads)
                 @ [Prompt ask_units]\<rparr>"
  have "fstate (disk w4) = Text c" using a by (simp add: w4_def)
  from update_no_match [OF this, of "code (?xs ! i)" "quantity (?xs ! i) + k"] a
  have upd: "update_quantity_in_file (code (?xs ! i)) (quantity (?xs ! i) + k) w4 = (False, w4)"
    by blast
  have "re_stock w =
           Returned ()
             (print (ShowShoe (restocked ?xs i k ! i))
                (print StockUpdated (if \<not> False then print FileLineWarning w4 else w4)))"
    using a by (intro re_stock_confirmed [OF ne i _ _ _ _ _ w4_def upd]) blast+
  moreover have "restocked ?xs i k ! i = (?xs ! i)\<lparr>quantity := quantity (?xs ! i) + k\<rparr>"
    using a by (simp add: restocked_def)
  ultimately show "re_stock w =
       Returned ()
         (w\<lparr>shoes_list := ?xs[i := (?xs ! i)\<lparr>quantity := quantity (?xs ! i) + k\<rparr>],
            stdin := rest,
            stdout := stdout w @ [LowestHeader, ShowShoe (?xs ! i), Prompt ask_confirm]
              @ concat (map (\<lambda>b. [Prompt ask_units, refusal b]) bads)
              @ [Prompt ask_units, FileLineWarning, StockUpdated,
                 ShowShoe ((?xs ! i)\<lparr>quantity := quantity (?xs ! i) + k\<rparr>)]\<rparr>)"
    by (simp add: print_def w4_def restocked_def)
qed

theorem re_stock_code_not_in_file_witness:
  "stdin gone_world = ''y'' # [''x''] @ ''10'' # [] \<and> lower (strip ''y'') = ''y'' \<and>
   rejected ''x'' \<and> py_int (strip ''10'') = Some 10 \<and>
   fstate (disk gone_world) = Text gone_text \<and>
   re_stock gone_world =
     Returned ()
       (gone_world\<lparr>shoes_list := three_shoes[0 := (three_shoes ! 0)\<lparr>quantity := 13\<rparr>],
          stdin := [],
          stdout := [LowestHeader, ShowShoe (three_shoes ! 0), Prompt ask_confirm,
                     Prompt ask_units, NeedWholeNumber, Prompt ask_units, FileLineWarning,
                     StockUpdated, ShowShoe ((three_shoes ! 0)\<lparr>quantity := 13\<rparr>)]\<rparr>)"
proof -
  have lines: "readlines gone_text =
      [''country,code,product,cost,quantity\<newline>'', ''USA,SH002,Runner,80,50\<newline>'', ''SH001\<newline>'']"
    by (simp add: gone_text_def nl_def)
  have nc: "\<not> has_code ''SH001'' ''USA,SH002,Runner,80,50\<newline>''" "\<not> has_code ''SH001'' ''SH001\<newline>''"
    by (simp_all add: has_code_def line_fields_def rstrip_nl_def nl_def comma_def strip_def
        is_space_def)
  have h1: "stdin gone_world = ''y'' # [''x''] @ ''10'' # [] \<and> lower (strip ''y'') = ''y'' \<and>
     rejected ''x'' \<and> py_int (strip ''10'') = Some 10 \<and>
     fstate (disk gone_world) = Text gone_text"
    by (simp add: gone_world_def lower_y strip_def is_space_def rejected_def py_int_def
        is_digit_def digit_val_def)
  have h2: "0 < length (shoes_list gone_world) \<and>
     (\<forall>j<length (shoes_list gone_world).
        quantity (shoes_list gone_world ! 0) \<le> quantity (shoes_list gone_world ! j)) \<and>
     (\<forall>j<0. quantity (shoes_list gone_world ! 0) < quantity (shoes_list gone_world ! j)) \<and>
     (\<forall>b\<in>set [''x'']. rejected b) \<and> (0 :: int) < 10 \<and>
     (\<forall>line\<in>set (tl (readlines gone_text)).
        \<not> has_code (code (shoes_list gone_world ! 0)) line)"
    using h1 by (simp add: gone_world_def three_shoes_def lines nc less_Suc_eq numeral_3_eq_3
        all_conj_distrib)
  from re_stock_code_not_in_file [of 0 gone_world "''y''" "[''x'']" "''10''" "[]" 10 gone_text]
    h1 h2
  have "re_stock gone_world =
       Returned ()
         (gone_world\<lparr>shoes_list :=
              (shoes_list gone_world)[0 := (shoes_list gone_world ! 0)
                 \<lparr>quantity := quantity (shoes_list gone_world ! 0) + 10\<rparr>],
            stdin := [],
            stdout := stdout gone_world @ [LowestHeader, ShowShoe (shoes_list gone_world ! 0), Prompt ask_confirm]
              @ concat (map (\<lambda>b. [Prompt ask_units, refusal b]) [''x''])
              @ [Prompt ask_units, FileLineWarning, StockUpdated,
                 ShowShoe ((shoes_list gone_world ! 0)
                   \<lparr>quantity := quantity (shoes_list gone_world ! 0) + 10\<rparr>)]\<rparr>)"
    by blast
  moreover have "refusal ''x'' = (NeedWholeNumber :: int msg)"
    by (simp add: refusal_def strip_def is_space_def py_int_def is_digit_def)
  ultimately have "re_stock gone_world =
     Returned ()
       (gone_world\<lparr>shoes_list := three_shoes[0 := (three_shoes ! 0)\<lparr>quantity := 13\<rparr>],
          stdin := [],
          stdout := [LowestHeader, ShowShoe (three_shoes ! 0), Prompt ask_confirm,
                     Prompt ask_units, NeedWholeNumber, Prompt ask_units, FileLineWarning,
                     StockUpdated, ShowShoe ((three_shoes ! 0)\<lparr>quantity := 13\<rparr>)]\<rparr>)"
    by (simp add: gone_world_def three_shoes_def)
  with h1 show ?thesis by blast
qed

section \<open>Which lines the rewrite changes\<close>

lemmas text_eval =
  update_quantity_in_file_def update_try_def read_file_def write_lines_def rewrite_line_def
  format_line_def with_newline_def endswith_nl_def rstrip_nl_def strip_def is_space_def
  nl_def comma_def str_int_def nat_digits.simps digit_char_def

text \<open>
  A file with two data lines of code \<open>SH002\<close>: the rewrite for that code changes the
  quantity of both, the later line as well as the first.
\<close>

theorem later_match_counterexample:
  "readlines twin_text =
     [''country,code,product,cost,quantity\<newline>'', ''USA,SH002,Runner,80,50\<newline>'',
      ''UK,SH002,Trail,95,3\<newline>''] \<and>
   update_quantity_in_file ''SH002'' 60 twin_world =
     (True,
      twin_world\<lparr>disk := \<lparr>fstate =
          Text ''country,code,product,cost,quantity\<newline>USA,SH002,Runner,80,60\<newline>UK,SH002,Trail,95,60\<newline>'',
          wperm = Writable\<rparr>\<rparr>)"
  by (simp add: twin_world_def twin_text_def text_eval)

lemma rstrip_nl_append_nl: "rstrip_nl (l @ [nl]) = rstrip_nl l"
  by (simp add: rstrip_nl_def)

lemma line_fields_with_newline: "line_fields (with_newline l) = line_fields l"
  by (simp add: with_newline_def line_fields_def rstrip_nl_append_nl)

lemma rewritten_other_fields:
  "\<not> has_code t l \<Longrightarrow> line_fields (rewritten t q l) = line_fields l"
  by (simp add: rewritten_def line_fields_with_newline)

text \<open>
  Claim C1, as the code has it. When the file holds a text with at least one data line of
  code \<open>t\<close> after its first line and may be written, \<open>_update_quantity_in_file\<close> returns
  \<open>True\<close> and the new text has as many lines as the old, the same first line, and at every
  other position: if the old line is a data line of code \<open>t\<close> (the first such line or a
  later one alike), the new line has the old line's fields with the fifth replaced by the
  new quantity; otherwise the new line has the fields of the old one.
\<close>

theorem update_rewrites_every_match:
  "fstate (disk w) = Text c \<and> wperm (disk w) = Writable \<and> readlines c = header # rest \<and>
   (\<exists>line\<in>set rest. has_code t line) \<longrightarrow>
     (\<exists>c'. update_quantity_in_file t q w = (True, w\<lparr>disk := (disk w)\<lparr>fstate := Text c'\<rparr>\<rparr>) \<and>
        length (readlines c') = length (readlines c) \<and>
        readlines c' ! 0 = header \<and>
        (\<forall>j<length rest.
           line_fields (readlines c' ! Suc j) =
             (if has_code t (rest ! j) then (line_fields (rest ! j))[4 := str_int q]
              else line_fields (rest ! j))))"
proof
  assume a: "fstate (disk w) = Text c \<and> wperm (disk w) = Writable \<and> readlines c = header # rest \<and>
   (\<exists>line\<in>set rest. has_code t line)"
  define c' where "c' = concat (header # map (rewritten t q) rest)"
  from a have d: "fstate (disk w) = Text c" "wperm (disk w) = Writable"
    and ls: "readlines c = header # rest" and hit: "\<exists>l\<in>set rest. has_code t l"
    by blast+
  note u = update_rewrites [OF d ls hit c'_def]
  have 1: "update_quantity_in_file t q w = (True, w\<lparr>disk := (disk w)\<lparr>fstate := Text c'\<rparr>\<rparr>)"
    by (simp add: update_quantity_in_file_def u(1))
  have 2: "length (readlines c') = length (readlines c)" "readlines c' ! 0 = header"
    by (simp_all add: u(2) ls)
  have 3: "\<forall>j<length rest.
           line_fields (readlines c' ! Suc j) =
             (if has_code t (rest ! j) then (line_fields (rest ! j))[4 := str_int q]
              else line_fields (rest ! j))"
    by (simp add: u(2) rewritten_fields rewritten_other_fields)
  from 1 2 3 show "\<exists>c'. update_quantity_in_file t q w = (True, w\<lparr>disk := (disk w)\<lparr>fstate := Text c'\<rparr>\<rparr>) \<and>
        length (readlines c') = length (readlines c) \<and>
        readlines c' ! 0 = header \<and>
        (\<forall>j<length rest.
           line_fields (readlines c' ! Suc j) =
             (if has_code t (rest ! j) then (line_fields (rest ! j))[4 := str_int q]
              else line_fields (rest ! j)))"
    by blast
qed

theorem update_rewrites_every_match_witness:
  "fstate (disk twin_world) = Text twin_text \<and> wperm (disk twin_world) = Writable \<and>
   readlines twin_text =
     ''country,code,product,cost,quantity\<newline>'' #
       [''USA,SH002,Runner,80,50\<newline>'', ''UK,SH002,Trail,95,3\<newline>''] \<and>
   has_code ''SH002'' ''USA,SH002,Runner,80,50\<newline>'' \<and>
   has_code ''SH002'' ''UK,SH002,Trail,95,3\<newline>'' \<and>
   (\<exists>c'. update_quantity_in_file ''SH002'' 60 twin_world =
           (True, twin_world\<lparr>disk := (disk twin_world)\<lparr>fstate := Text c'\<rparr>\<rparr>) \<and>
         line_fields (readlines c' ! 1) = [''USA'', ''SH002'', ''Runner'', ''80'', ''60''] \<and>
         line_fields (readlines c' ! 2) = [''UK'', ''SH002'', ''Trail'', ''95'', ''60''])"
proof -
  have lf: "line_fields ''USA,SH002,Runner,80,50\<newline>'' = [''USA'', ''SH002'', ''Runner'', ''80'', ''50'']"
    "line_fields ''UK,SH002,Trail,95,3\<newline>'' = [''UK'', ''SH002'', ''Trail'', ''95'', ''3'']"
    by (simp_all add: line_fields_def rstrip_nl_def nl_def comma_def strip_def is_space_def)
  have h: "fstate (disk twin_world) = Text twin_text \<and> wperm (disk twin_world) = Writable \<and>
     readlines twin_text =
       ''country,code,product,cost,quantity\<newline>'' #
         [''USA,SH002,Runner,80,50\<newline>'', ''UK,SH002,Trail,95,3\<newline>''] \<and>
     has_code ''SH002'' ''USA,SH002,Runner,80,50\<newline>'' \<and>
     has_code ''SH002'' ''UK,SH002,Trail,95,3\<newline>''"
    by (simp add: twin_world_def twin_text_def nl_def has_code_def lf)
  then have e: "\<exists>line\<in>set [''USA,SH002,Runner,80,50\<newline>'', ''UK,SH002,Trail,95,3\<newline>''].
      has_code ''SH002'' line"
    by simp
  from update_rewrites_every_match [of twin_world twin_text "''country,code,product,cost,quantity\<newline>''"
      "[''USA,SH002,Runner,80,50\<newline>'', ''UK,SH002,Trail,95,3\<newline>'']" "''SH002''" 60] h e
  obtain c' where c': "update_quantity_in_file ''SH002'' 60 twin_world =
           (True, twin_world\<lparr>disk := (disk twin_world)\<lparr>fstate := Text c'\<rparr>\<rparr>)"
    "\<forall>j<length [''USA,SH002,Runner,80,50\<newline>'', ''UK,SH002,Trail,95,3\<newline>''].
           line_fields (readlines c' ! Suc j) =
             (if has_code ''SH002'' ([''USA,SH002,Runner,80,50\<newline>'', ''UK,SH002,Trail,95,3\<newline>''] ! j)
              then (line_fields ([''USA,SH002,Runner,80,50\<newline>'', ''UK,SH002,Trail,95,3\<newline>''] ! j))
                     [4 := str_int 60]
              else line_fields ([''USA,SH002,Runner,80,50\<newline>'', ''UK,SH002,Trail,95,3\<newline>''] ! j))"
    by blast
  have s: "str_int 60 = ''60''" by (simp add: str_int_def nat_digits.simps digit_char_def)
  from c'(2) [rule_format, of 0] h have 1: "line_fields (readlines c' ! 1) = [''USA'', ''SH002'', ''Runner'', ''80'', ''60'']"
    by (simp add: lf s numeral_eq_Suc)
  from c'(2) [rule_format, of 1] h have 2: "line_fields (readlines c' ! 2) = [''UK'', ''SH002'', ''Trail'', ''95'', ''60'']"
    by (simp add: lf s numeral_eq_Suc)
  from h c'(1) 1 2 show ?thesis by blast
qed

section \<open>The file after a restock\<close>

text \<open>
  A file whose last line has no newline and another code: after the restock of \<open>SH001\<close>
  that line is not what it was, a newline has been added to it.
\<close>

theorem last_line_counterexample:
  "readlines tail_text =
     [''country,code,product,cost,quantity\<newline>'', ''USA,SH001,AirMax,120,3\<newline>'',
      ''USA,SH002,Runner,80,50''] \<and>
   disk (final (re_stock tail_world)) =
     \<lparr>fstate = Text ''country,code,product,cost,quantity\<newline>USA,SH001,AirMax,120,13\<newline>USA,SH002,Runner,80,50\<newline>'',
      wperm = Writable\<rparr> \<and>
   readlines ''country,code,product,cost,quantity\<newline>USA,SH001,AirMax,120,13\<newline>USA,SH002,Runner,80,50\<newline>'' =
     [''country,code,product,cost,quantity\<newline>'', ''USA,SH001,AirMax,120,13\<newline>'',
      ''USA,SH002,Runner,80,50\<newline>'']"
  by (simp add: tail_world_def tail_text_def three_shoes_def re_stock_def min_index_def
      input_def print_def lower_y add_qty_loop.simps py_int_def is_digit_def digit_val_def
      Let_def text_eval)




text \<open>
  A file stored with CR LF line ends, rewritten on a POSIX platform: every line end is a
  bare newline afterwards, that of the first line too.
\<close>

lemma crlf_file_example:
  "update_stored Posix Writable ''SH001'' 13
     (''country,code,product,cost,quantity'' @ [cr, nl] @ ''USA,SH001,AirMax,120,3'' @ [cr, nl]) =
   (True, ''country,code,product,cost,quantity\<newline>USA,SH001,AirMax,120,13\<newline>'')"
  by (simp add: update_stored_def on_disk_posix cr_def text_eval)

lemma rewritten_cases:
  "rewritten t q l =
     (if has_code t l
      then format_line (line_fields l ! 0) t (line_fields l ! 2) (line_fields l ! 3) q
      else if blank l \<or> endswith_nl l then l else l @ [nl])"
  by (simp add: rewritten_def with_newline_def)

text \<open>
  Claim C2, as the code has it. Let the record at position \<open>i\<close> be the first minimum of the
  store, with code \<open>t\<close>; let the operator confirm and, after any rejected texts, give an
  increment \<open>k > 0\<close>, so that the new quantity is \<open>q\<close>; let the file be writable and hand
  the program a text \<open>c\<close> with a data line of code \<open>t\<close> after its first line. Then
  \<open>re_stock\<close> returns, the record's quantity is \<open>q\<close>, and the text \<open>c'\<close> it writes has
  as many lines as \<open>c\<close> and the same first line. At every other position: a data line of
  code \<open>t\<close> has become its stripped country, code, product and cost fields and \<open>q\<close>,
  joined by commas and ended by a newline, so that its fields are the old ones with the
  fifth replaced; a blank line and a line that ends in a newline are what they were; any
  other line, which can only be the last one of the file, has a newline added.

  On disk: whatever characters \<open>raw\<close> the file stored before (those that reach the program
  as \<open>c\<close>), it stores \<open>on_disk p c'\<close> afterwards, every line end being the separator of
  the platform \<open>p\<close>, and reading that back gives \<open>c'\<close>. The text \<open>c'\<close> holds no carriage
  return and a POSIX platform stores it as it is; a file that stored no carriage return
  stored \<open>c\<close> itself. So on a POSIX platform the lines said above to be what they were are
  the stored characters unchanged when the file had no carriage return, and every stored
  CR LF or CR line end is replaced by a newline when it had.
\<close>

theorem re_stock_rewrites_file:
  "i < length (shoes_list w) \<and>
   (\<forall>j<length (shoes_list w). quantity (shoes_list w ! i) \<le> quantity (shoes_list w ! j)) \<and>
   (\<forall>j<i. quantity (shoes_list w ! i) < quantity (shoes_list w ! j)) \<and>
   stdin w = l # bads @ good # later \<and> lower (strip l) = ''y'' \<and>
   (\<forall>b\<in>set bads. rejected b) \<and> py_int (strip good) = Some k \<and> 0 < k \<and>
   t = code (shoes_list w ! i) \<and> q = quantity (shoes_list w ! i) + k \<and>
   fstate (disk w) = Text c \<and> wperm (disk w) = Writable \<and> readlines c = header # rest \<and>
   (\<exists>line\<in>set rest. has_code t line) \<longrightarrow>
     (\<exists>w' c'. re_stock w = Returned () w' \<and>
        shoes_list w' = (shoes_list w)[i := (shoes_list w ! i)\<lparr>quantity := q\<rparr>] \<and>
        disk w' = (disk w)\<lparr>fstate := Text c'\<rparr> \<and>
        length (readlines c') = length (readlines c) \<and>
        readlines c' ! 0 = header \<and>
        (\<forall>j<length rest.
           readlines c' ! Suc j =
             (if has_code t (rest ! j)
              then format_line (line_fields (rest ! j) ! 0) t (line_fields (rest ! j) ! 2)
                     (line_fields (rest ! j) ! 3) q
              else if blank (rest ! j) \<or> endswith_nl (rest ! j) then rest ! j
              else rest ! j @ [nl]) \<and>
           (has_code t (rest ! j) \<longrightarrow>
              line_fields (readlines c' ! Suc j) = (line_fields (rest ! j))[4 := str_int q]) \<and>
           (Suc j < length rest \<longrightarrow> endswith_nl (rest ! j))) \<and>
        (\<forall>raw. universal raw = c \<longrightarrow>
           update_stored p Writable t q raw = (True, on_disk p c') \<and>
           universal (on_disk p c') = c' \<and> cr \<notin> set c' \<and> on_disk Posix c' = c' \<and>
           (cr \<notin> set raw \<longrightarrow> raw = c)))"
proof
  let ?xs = "shoes_list w"
  assume a: "i < length ?xs \<and>
   (\<forall>j<length ?xs. quantity (?xs ! i) \<le> quantity (?xs ! j)) \<and>
   (\<forall>j<i. quantity (?xs ! i) < quantity (?xs ! j)) \<and>
   stdin w = l # bads @ good # later \<and> lower (strip l) = ''y'' \<and>
   (\<forall>b\<in>set bads. rejected b) \<and> py_int (strip good) = Some k \<and> 0 < k \<and>
   t = code (?xs ! i) \<and> q = quantity (?xs ! i) + k \<and>
   fstate (disk w) = Text c \<and> wperm (disk w) = Writable \<and> readlines c = header # rest \<and>
   (\<exists>line\<in>set rest. has_code t line)"
  then have i: "min_index (map quantity ?xs) = Some i" by (intro min_index_is) blast+
  from a have ne: "?xs \<noteq> []" by auto
  from a have t: "t = code (?xs ! i)" and q: "q = quantity (?xs ! i) + k" by blast+
  from a have ls: "readlines c = header # rest" and hit: "\<exists>l\<in>set rest. has_code t l" by blast+
  define w4 where "w4 = w\<lparr>shoes_list := restocked ?xs i k, stdin := later,
               stdout := stdout w @ [LowestHeader, ShowShoe (?xs ! i), Prompt ask_confirm]
                 @ concat (map (\<lambda>b. [Prompt ask_units, refusal b]) bads)
                 @ [Prompt ask_units]\<rparr>"
  define c' where "c' = concat (header # map (rewritten t q) rest)"
  have d4: "fstate (disk w4) = Text c" "wperm (disk w4) = Writable"
    using a by (simp_all add: w4_def)
  note u = update_rewrites [OF d4 ls hit c'_def]
  have upd: "update_quantity_in_file (code (?xs ! i)) (quantity (?xs ! i) + k) w4 =
      (True, w4\<lparr>disk := (disk w4)\<lparr>fstate := Text c'\<rparr>\<rparr>)"
    by (simp add: update_quantity_in_file_def u(1) t [symmetric] q [symmetric])
  define w' where "w' = print (ShowShoe (restocked ?xs i k ! i))
      (print StockUpdated (w4\<lparr>disk := (disk w4)\<lparr>fstate := Text c'\<rparr>\<rparr>))"
  have "re_stock w =
      Returned ()
        (print (ShowShoe (restocked ?xs i k ! i))
           (print StockUpdated
              (if \<not> True then print FileLineWarning (w4\<lparr>disk := (disk w4)\<lparr>fstate := Text c'\<rparr>\<rparr>)
               else w4\<lparr>disk := (disk w4)\<lparr>fstate := Text c'\<rparr>\<rparr>)))"
    using a by (intro re_stock_confirmed [OF ne i _ _ _ _ _ w4_def upd]) blast+
  then have run: "re_stock w = Returned () w'"
    by (simp add: w'_def)
  have s: "shoes_list w' = ?xs[i := (?xs ! i)\<lparr>quantity := q\<rparr>]"
    by (simp add: w'_def print_def w4_def restocked_def q)
  have d: "disk w' = (disk w)\<lparr>fstate := Text c'\<rparr>"
    by (simp add: w'_def print_def w4_def)
  have n: "length (readlines c') = length (readlines c)" "readlines c' ! 0 = header"
    by (simp_all add: u(2) ls)
  have ok: "lines_ok rest" using readlines_ok [of c] by (simp add: ls)
  have each: "\<forall>j<length rest.
           readlines c' ! Suc j =
             (if has_code t (rest ! j)
              then format_line (line_fields (rest ! j) ! 0) t (line_fields (rest ! j) ! 2)
                     (line_fields (rest ! j) ! 3) q
              else if blank (rest ! j) \<or> endswith_nl (rest ! j) then rest ! j
              else rest ! j @ [nl]) \<and>
           (has_code t (rest ! j) \<longrightarrow>
              line_fields (readlines c' ! Suc j) = (line_fields (rest ! j))[4 := str_int q]) \<and>
           (Suc j < length rest \<longrightarrow> endswith_nl (rest ! j))"
  proof (intro allI impI conjI)
    fix j
    assume j: "j < length rest"
    then have e: "readlines c' ! Suc j = rewritten t q (rest ! j)" by (simp add: u(2))
    show "readlines c' ! Suc j =
             (if has_code t (rest ! j)
              then format_line (line_fields (rest ! j) ! 0) t (line_fields (rest ! j) ! 2)
                     (line_fields (rest ! j) ! 3) q
              else if blank (rest ! j) \<or> endswith_nl (rest ! j) then rest ! j
              else rest ! j @ [nl])"
      unfolding e by (rule rewritten_cases)
    show "line_fields (readlines c' ! Suc j) = (line_fields (rest ! j))[4 := str_int q]"
      if "has_code t (rest ! j)"
      unfolding e by (rule rewritten_fields [OF that])
    show "endswith_nl (rest ! j)" if "Suc j < length rest"
      by (rule lines_ok_nth [OF ok that])
  qed
  have stored: "\<forall>raw. universal raw = c \<longrightarrow>
           update_stored p Writable t q raw = (True, on_disk p c') \<and>
           universal (on_disk p c') = c' \<and> cr \<notin> set c' \<and> on_disk Posix c' = c' \<and>
           (cr \<notin> set raw \<longrightarrow> raw = c)"
  proof (intro allI impI)
    fix raw
    assume r: "universal raw = c"
    then have lr: "readlines (universal raw) = header # rest" by (simp add: ls)
    note b = update_stored_rewrites [OF lr hit c'_def]
    have "raw = c" if "cr \<notin> set raw" using universal_id [OF that] r by simp
    with b on_disk_posix [of c']
    show "update_stored p Writable t q raw = (True, on_disk p c') \<and>
           universal (on_disk p c') = c' \<and> cr \<notin> set c' \<and> on_disk Posix c' = c' \<and>
           (cr \<notin> set raw \<longrightarrow> raw = c)"
      by blast
  qed
  from run s d n each stored
  show "\<exists>w' c'. re_stock w = Returned () w' \<and>
        shoes_list w' = ?xs[i := (?xs ! i)\<lparr>quantity := q\<rparr>] \<and>
        disk w' = (disk w)\<lparr>fstate := Text c'\<rparr> \<and>
        length (readlines c') = length (readlines c) \<and>
        readlines c' ! 0 = header \<and>
        (\<forall>j<length rest.
           readlines c' ! Suc j =
             (if has_code t (rest ! j)
              then format_line (line_fields (rest ! j) ! 0) t (line_fields (rest ! j) ! 2)
                     (line_fields (rest ! j) ! 3) q
              else if blank (rest ! j) \<or> endswith_nl (rest ! j) then rest ! j
              else rest ! j @ [nl]) \<and>
           (has_code t (rest ! j) \<longrightarrow>
              line_fields (readlines c' ! Suc j) = (line_fields (rest ! j))[4 := str_int q]) \<and>
           (Suc j < length rest \<longrightarrow> endswith_nl (rest ! j))) \<and>
        (\<forall>raw. universal raw = c \<longrightarrow>
           update_stored p Writable t q raw = (True, on_disk p c') \<and>
           universal (on_disk p c') = c' \<and> cr \<notin> set c' \<and> on_disk Posix c' = c' \<and>
           (cr \<notin> set raw \<longrightarrow> raw = c))"
    by blast
qed


theorem re_stock_rewrites_file_witness:
  "stdin tail_world = ''y'' # [] @ ''10'' # [] \<and> lower (strip ''y'') = ''y'' \<and>
   py_int (strip ''10'') = Some 10 \<and>
   fstate (disk tail_world) = Text tail_text \<and> wperm (disk tail_world) = Writable \<and>
   readlines tail_text =
     ''country,code,product,cost,quantity\<newline>'' #
       [''USA,SH001,AirMax,120,3\<newline>'', ''USA,SH002,Runner,80,50''] \<and>
   has_code ''SH001'' ''USA,SH001,AirMax,120,3\<newline>'' \<and>
   (\<exists>w' c'. re_stock tail_world = Returned () w' \<and>
      shoes_list w' = three_shoes[0 := (three_shoes ! 0)\<lparr>quantity := 13\<rparr>] \<and>
      disk w' = (disk tail_world)\<lparr>fstate := Text c'\<rparr> \<and>
      readlines c' ! 0 = ''country,code,product,cost,quantity\<newline>'' \<and>
      readlines c' ! 1 = ''USA,SH001,AirMax,120,13\<newline>'' \<and>
      readlines c' ! 2 = ''USA,SH002,Runner,80,50\<newline>'' \<and>
      update_stored Posix Writable ''SH001'' 13 tail_text = (True, c'))"
proof -
  let ?h = "''country,code,product,cost,quantity\<newline>''"
  let ?r = "[''USA,SH001,AirMax,120,3\<newline>'', ''USA,SH002,Runner,80,50'']"
  have lf: "line_fields ''USA,SH001,AirMax,120,3\<newline>'' = [''USA'', ''SH001'', ''AirMax'', ''120'', ''3'']"
    "line_fields ''USA,SH002,Runner,80,50'' = [''USA'', ''SH002'', ''Runner'', ''80'', ''50'']"
    by (simp_all add: line_fields_def rstrip_nl_def nl_def comma_def strip_def is_space_def)
  have h1: "stdin tail_world = ''y'' # [] @ ''10'' # [] \<and> lower (strip ''y'') = ''y'' \<and>
     py_int (strip ''10'') = Some 10 \<and>
     fstate (disk tail_world) = Text tail_text \<and> wperm (disk tail_world) = Writable \<and>
     readlines tail_text = ?h # ?r \<and>
     has_code ''SH001'' ''USA,SH001,AirMax,120,3\<newline>''"
    by (simp add: tail_world_def tail_text_def nl_def lower_y strip_def is_space_def py_int_def
        is_digit_def digit_val_def has_code_def lf)
  have h2: "0 < length (shoes_list tail_world) \<and>
     (\<forall>j<length (shoes_list tail_world).
        quantity (shoes_list tail_world ! 0) \<le> quantity (shoes_list tail_world ! j)) \<and>
     (\<forall>j<0. quantity (shoes_list tail_world ! 0) < quantity (shoes_list tail_world ! j)) \<and>
     (\<forall>b\<in>set []. rejected b) \<and> (0 :: int) < 10 \<and>
     ''SH001'' = code (shoes_list tail_world ! 0) \<and>
     (13 :: int) = quantity (shoes_list tail_world ! 0) + 10 \<and>
     (\<exists>line\<in>set ?r. has_code ''SH001'' line)"
    using h1 by (simp add: tail_world_def three_shoes_def less_Suc_eq numeral_3_eq_3
        all_conj_distrib)
  from re_stock_rewrites_file [of 0 tail_world "''y''" "[]" "''10''" "[]" 10 "''SH001''" 13
      tail_text ?h ?r Posix] h1 h2
  obtain w' c' where r: "re_stock tail_world = Returned () w'"
    "shoes_list w' = (shoes_list tail_world)[0 := (shoes_list tail_world ! 0)\<lparr>quantity := 13\<rparr>]"
    "disk w' = (disk tail_world)\<lparr>fstate := Text c'\<rparr>"
    "readlines c' ! 0 = ?h"
    and each: "\<forall>j<length ?r.
           readlines c' ! Suc j =
             (if has_code ''SH001'' (?r ! j)
              then format_line (line_fields (?r ! j) ! 0) ''SH001'' (line_fields (?r ! j) ! 2)
                     (line_fields (?r ! j) ! 3) 13
              else if blank (?r ! j) \<or> endswith_nl (?r ! j) then ?r ! j
              else ?r ! j @ [nl])"
    and st: "\<forall>raw. universal raw = tail_text \<longrightarrow>
           update_stored Posix Writable ''SH001'' 13 raw = (True, on_disk Posix c') \<and>
           universal (on_disk Posix c') = c' \<and> cr \<notin> set c' \<and> on_disk Posix c' = c' \<and>
           (cr \<notin> set raw \<longrightarrow> raw = tail_text)"
    by blast
  have "cr \<notin> set tail_text" by (simp add: tail_text_def cr_def)
  then have "universal tail_text = tail_text" by (rule universal_id)
  with st have 4: "update_stored Posix Writable ''SH001'' 13 tail_text = (True, c')" by simp
  have s: "str_int 13 = ''13''" by (simp add: str_int_def nat_digits.simps digit_char_def)
  from each [rule_format, of 0] h1
  have 1: "readlines c' ! 1 = ''USA,SH001,AirMax,120,13\<newline>''"
    by (simp add: lf format_line_def s comma_def nl_def)
  have nb: "\<not> has_code ''SH001'' ''USA,SH002,Runner,80,50''"
    "\<not> blank ''USA,SH002,Runner,80,50''" "\<not> endswith_nl ''USA,SH002,Runner,80,50''"
    by (simp_all add: has_code_def lf blank_def is_space_def endswith_nl_def nl_def)
  from each [rule_format, of 1]
  have 2: "readlines c' ! 2 = ''USA,SH002,Runner,80,50\<newline>''"
    by (simp add: nb nl_def numeral_2_eq_2)
  have 3: "shoes_list w' = three_shoes[0 := (three_shoes ! 0)\<lparr>quantity := 13\<rparr>]"
    using r(2) by (simp add: tail_world_def)
  from h1 r(1,3,4) 1 2 3 4 show ?thesis by blast
qed

section \<open>Signs of cost and quantity\<close>

text \<open>
  Capture on an empty store with the quantity text \<open>-5\<close>: the text parses, nothing checks
  its sign, and the store holds a record of quantity \<open>-5\<close>.
\<close>

theorem negative_quantity_counterexample:
  "capture_shoes whole_float negative_world =
     Returned ()
       (negative_world\<lparr>shoes_list :=
           [\<lparr>country = ''ZA'', code = ''SH009'', product = ''Boot'', cost = 10, quantity = - 5\<rparr>],
          stdin := [],
          stdout := [Prompt ask_country, Prompt ask_code, Prompt ask_product, Prompt ask_cost,
                     Prompt ask_quantity, Captured]\<rparr>) \<and>
   quantity \<lparr>country = ''ZA'', code = ''SH009'', product = ''Boot'', cost = 10 :: int,
              quantity = - 5\<rparr> < 0"
  by (simp add: capture_shoes_def negative_world_def input_def print_def cost_loop.simps
      quantity_loop.simps whole_float_def py_int_def is_digit_def digit_val_def strip_def
      is_space_def)

lemma add_qty_loop_frame:
  "shoes_list (final (add_qty_loop w)) = shoes_list w \<and>
   (\<forall>k w'. add_qty_loop w = Returned k w' \<longrightarrow> 0 < k)"
proof (induction w rule: add_qty_loop.induct)
  case (1 w)
  show ?case
  proof (cases "stdin w")
    case Nil
    then show ?thesis by (subst (1 2) add_qty_loop.simps) (simp add: input_def print_def)
  next
    case (Cons l ls)
    let ?w = "(print (Prompt ask_units) w)\<lparr>stdin := ls\<rparr>"
    have inp: "input ask_units w = Inr (l, ?w)" by (simp add: input_def Cons)
    show ?thesis
    proof (cases "py_int (strip l)")
      case None
      from "1.IH"(1) [OF inp refl None]
      show ?thesis by (subst (1 2) add_qty_loop.simps) (simp add: inp None print_def)
    next
      case (Some k)
      show ?thesis
      proof (cases "k \<le> 0")
        case True
        from "1.IH"(2) [OF inp refl Some True]
        show ?thesis by (subst (1 2) add_qty_loop.simps) (simp add: inp Some True print_def)
      next
        case False
        then show ?thesis by (subst (1 2) add_qty_loop.simps) (simp add: inp Some print_def)
      qed
    qed
  qed
qed

lemma re_stock_store:
  "shoes_list (final (re_stock w)) = shoes_list w \<or>
   (\<exists>i k. i < length (shoes_list w) \<and> 0 < k \<and>
      shoes_list (final (re_stock w)) = restocked (shoes_list w) i k)"
proof (cases "shoes_list w = []")
  case True
  then show ?thesis by (simp add: re_stock_def print_def)
next
  case False
  then have "map quantity (shoes_list w) \<noteq> []" by simp
  from min_index_first_min [OF this] obtain i where
    i: "min_index (map quantity (shoes_list w)) = Some i" "i < length (shoes_list w)"
    by auto
  define w1 where "w1 = print (ShowShoe (shoes_list w ! i)) (print LowestHeader w)"
  have s1: "shoes_list w1 = shoes_list w" by (simp add: w1_def print_def)
  have r: "re_stock w =
      (case input ask_confirm w1 of
                Inl w2 \<Rightarrow> Raised EOFError w2
              | Inr (l, w2) \<Rightarrow>
                  if lower (strip l) \<noteq> ''y'' then Returned () (print RestockCancelled w2)
                  else
                    (case add_qty_loop w2 of
                       Raised e w3 \<Rightarrow> Raised e w3
                     | Returned add_qty w3 \<Rightarrow>
                         (let s = shoes_list w3 ! i;
                              s' = s\<lparr>quantity := quantity s + add_qty\<rparr>;
                              w4 = w3\<lparr>shoes_list := (shoes_list w3)[i := s']\<rparr>
                          in case update_quantity_in_file (code s') (quantity s') w4 of
                               (updated, w5) \<Rightarrow>
                                 (let w6 = (if \<not> updated then print FileLineWarning w5 else w5)
                                  in Returned ()
                                       (print (ShowShoe (shoes_list w6 ! i))
                                          (print StockUpdated w6))))))"
    unfolding re_stock_def w1_def using False i(1) by simp
  show ?thesis
  proof (cases "input ask_confirm w1")
    case (Inl w2)
    then have "shoes_list w2 = shoes_list w" using s1 by (auto simp: input_def print_def split: list.splits)
    with Inl show ?thesis by (simp add: r)
  next
    case (Inr p)
    obtain l w2 where p: "p = (l, w2)" by (cases p)
    have s2: "shoes_list w2 = shoes_list w"
      using Inr s1 by (auto simp: p input_def print_def split: list.splits)
    show ?thesis
    proof (cases "lower (strip l) \<noteq> ''y''")
      case True
      with Inr s2 show ?thesis by (simp add: r p print_def)
    next
      case yes: False
      show ?thesis
      proof (cases "add_qty_loop w2")
        case (Raised e w3)
        with add_qty_loop_frame [of w2] have "shoes_list w3 = shoes_list w" by (simp add: s2)
        with Inr yes Raised show ?thesis by (simp add: r p)
      next
        case (Returned k w3)
        with add_qty_loop_frame [of w2] have k: "0 < k" and s3: "shoes_list w3 = shoes_list w"
          by (auto simp: s2)
        define w4 where "w4 = w3\<lparr>shoes_list := restocked (shoes_list w) i k\<rparr>"
        obtain updated w5 where
          u: "update_quantity_in_file (code (shoes_list w ! i)) (quantity (shoes_list w ! i) + k) w4
                = (updated, w5)"
          by (cases "update_quantity_in_file (code (shoes_list w ! i))
                (quantity (shoes_list w ! i) + k) w4") blast
        from update_frame [OF u] have s5: "shoes_list w5 = restocked (shoes_list w) i k"
          by (simp add: w4_def)
        have "shoes_list (final (re_stock w)) = restocked (shoes_list w) i k"
          using Inr yes Returned
          by (simp add: r p Let_def s3 w4_def [unfolded restocked_def, symmetric] u s5 print_def
              del: One_nat_def)
        with i(2) k show ?thesis by blast
      qed
    qed
  qed
qed

lemma restocked_nonneg:
  assumes "list_all nonneg xs" "i < length xs" "0 < k"
  shows "list_all nonneg (restocked xs i k)"
proof -
  have "nonneg ((xs ! i)\<lparr>quantity := quantity (xs ! i) + k\<rparr>)"
    using assms by (simp add: nonneg_def list_all_length)
  with assms(1) show ?thesis
    unfolding restocked_def list_all_iff using set_update_subset_insert [of xs i] by blast
qed

lemma records_nonneg:
  "list_all nonneg (records_of pf ls) =
     (\<forall>line\<in>set ls. case decode_line pf line of None \<Rightarrow> True | Some s \<Rightarrow> nonneg s)"
  by (induction ls) (auto simp: records_of_def split: option.splits)


lemma search_shoe_store: "shoes_list (final (search_shoe w)) = shoes_list w"
  by (simp add: search_shoe_def input_def print_def split: list.splits)

lemma read_shoes_data_store:
  "shoes_list (final (read_shoes_data pf w)) =
     (case fstate (disk w) of Text content \<Rightarrow> records_of pf (tl (readlines content)) | _ \<Rightarrow> [])"
proof (cases "fstate (disk w)")
  case (Text content)
  show ?thesis
  proof (cases "readlines content")
    case Nil
    with Text show ?thesis
      by (simp add: read_shoes_data_def load_try_def read_file_def print_def records_of_def)
  next
    case (Cons header rest)
    from read_shoes_data_text [OF Text Cons, of pf] Text Cons show ?thesis by simp
  qed
qed (simp_all add: read_shoes_data_def load_try_def read_file_def print_def)

text \<open>
  Claim C4, as the code has it. No operation checks a sign. After a capture that returns,
  every record of the store has cost and quantity at least zero exactly when that held
  before and the parsed cost and quantity are at least zero. After a load from a text, it
  holds exactly when every record decoded from the lines after the first has cost and
  quantity at least zero; after a load that finds no text the store is empty. A restock
  keeps the property, since it only adds an increment above zero to one quantity, and a
  search does not change the store.
\<close>

theorem store_nonneg_when_inputs_are:
  fixes w :: "('c :: {zero, ord}) world"
  shows
  "(stdin w = l1 # l2 # l3 # badc @ goodc # badq @ goodq # rest \<and>
    (\<forall>b\<in>set badc. pf (strip b) = None) \<and> pf (strip goodc) = Some c \<and>
    (\<forall>b\<in>set badq. py_int (strip b) = None) \<and> py_int (strip goodq) = Some q \<longrightarrow>
      list_all nonneg (shoes_list (final (capture_shoes pf w))) =
        (list_all nonneg (shoes_list w) \<and> 0 \<le> c \<and> 0 \<le> q)) \<and>
   (fstate (disk w) = Text content \<longrightarrow>
      list_all nonneg (shoes_list (final (read_shoes_data pf w))) =
        (\<forall>line\<in>set (tl (readlines content)).
           case decode_line pf line of None \<Rightarrow> True | Some s \<Rightarrow> nonneg s)) \<and>
   ((\<forall>content. fstate (disk w) \<noteq> Text content) \<longrightarrow> shoes_list (final (read_shoes_data pf w)) = []) \<and>
   (list_all nonneg (shoes_list w) \<longrightarrow> list_all nonneg (shoes_list (final (re_stock w)))) \<and>
   shoes_list (final (search_shoe w)) = shoes_list w"
proof (intro conjI impI)
  assume a: "stdin w = l1 # l2 # l3 # badc @ goodc # badq @ goodq # rest \<and>
    (\<forall>b\<in>set badc. pf (strip b) = None) \<and> pf (strip goodc) = Some c \<and>
    (\<forall>b\<in>set badq. py_int (strip b) = None) \<and> py_int (strip goodq) = Some q"
  then have "capture_shoes pf w =
           Returned ()
             (captured w \<lparr>country = strip l1, code = strip l2, product = strip l3,
                          cost = c, quantity = q\<rparr> badc badq rest)"
    by (intro capture_run) blast+
  then show "list_all nonneg (shoes_list (final (capture_shoes pf w))) =
        (list_all nonneg (shoes_list w) \<and> 0 \<le> c \<and> 0 \<le> q)"
    by (simp add: captured_def nonneg_def)
next
  assume "fstate (disk w) = Text content"
  then show "list_all nonneg (shoes_list (final (read_shoes_data pf w))) =
        (\<forall>line\<in>set (tl (readlines content)).
           case decode_line pf line of None \<Rightarrow> True | Some s \<Rightarrow> nonneg s)"
    by (simp add: read_shoes_data_store records_nonneg)
next
  assume "\<forall>content. fstate (disk w) \<noteq> Text content"
  then show "shoes_list (final (read_shoes_data pf w)) = []"
    by (simp add: read_shoes_data_store split: file_state.splits)
next
  assume n: "list_all nonneg (shoes_list w)"
  from re_stock_store [of w] show "list_all nonneg (shoes_list (final (re_stock w)))"
  proof
    assume "shoes_list (final (re_stock w)) = shoes_list w"
    with n show ?thesis by simp
  next
    assume "\<exists>i k. i < length (shoes_list w) \<and> 0 < k \<and>
      shoes_list (final (re_stock w)) = restocked (shoes_list w) i k"
    then obtain i k where "i < length (shoes_list w)" "0 < k"
      "shoes_list (final (re_stock w)) = restocked (shoes_list w) i k"
      by blast
    with restocked_nonneg [OF n] show ?thesis by simp
  qed
next
  show "shoes_list (final (search_shoe w)) = shoes_list w" by (rule search_shoe_store)
qed

theorem store_nonneg_when_inputs_are_witness:
  "stdin plus_world = ''ZA'' # ''SH009'' # ''Boot'' # [] @ ''10'' # [] @ ''5'' # [] \<and>
   whole_float (strip ''10'') = Some 10 \<and> py_int (strip ''5'') = Some 5 \<and>
   list_all nonneg (shoes_list plus_world) \<and> (0 :: int) \<le> 10 \<and> (0 :: int) \<le> 5 \<and>
   list_all nonneg (shoes_list (final (capture_shoes whole_float plus_world)))"
proof -
  have h: "stdin plus_world = ''ZA'' # ''SH009'' # ''Boot'' # [] @ ''10'' # [] @ ''5'' # [] \<and>
     (\<forall>b\<in>set []. whole_float (strip b) = None) \<and>
     whole_float (strip ''10'') = Some 10 \<and>
     (\<forall>b\<in>set []. py_int (strip b) = None) \<and> py_int (strip ''5'') = Some 5"
    by (simp add: plus_world_def whole_float_def py_int_def is_digit_def digit_val_def
        strip_def is_space_def)
  have n: "list_all nonneg (shoes_list plus_world)"
    by (simp add: plus_world_def three_shoes_def nonneg_def)
  from store_nonneg_when_inputs_are [of plus_world "''ZA''" "''SH009''" "''Boot''" "[]" "''10''"
      "[]" "''5''" "[]" whole_float 10 5] h n
  have "list_all nonneg (shoes_list (final (capture_shoes whole_float plus_world)))"
    by simp
  with h n show ?thesis by simp
qed

end
